theory Spec2Isabelle
  imports Main "HOL-Library.List_Lexorder" "HOL-Library.Multiset" "HOL-Library.Code_Target_Nat"
begin

section \<open>The OpenUI5 cache buster (index.js) on a POSIX host\<close>

text \<open>
  A shallow embedding of \<^verbatim>\<open>index.js\<close>: the function \<^verbatim>\<open>ui5Bust\<close> and its helpers
  \<^verbatim>\<open>_getUi5AppHash\<close>, \<^verbatim>\<open>_getUi5LibHash\<close>, \<^verbatim>\<open>_getAssetsHash\<close>, \<^verbatim>\<open>_getThemeRootHash\<close>,
  \<^verbatim>\<open>_readAllFiles\<close> and \<^verbatim>\<open>_createHash\<close>.

  \<^item> A JavaScript string is the list of its UTF-16 code units (natural numbers below 65536).
  \<^item> A Buffer is the list of its bytes, written as a HOL string (a list of 8-bit characters).
  \<^item> The file system is a tree of directories and files that is passed through the run and
    returned with it, so that the state at the moment of a failure can be read off.
  \<^item> Every \<^verbatim>\<open>throw\<close> is an \<open>Inl\<close> result.
  \<^item> \<^verbatim>\<open>JSON.parse\<close> and the digest of loader-utils are parameters of the model (record
    \<open>platform\<close>); the calls to \<^verbatim>\<open>gutil.log\<close> have no effect on any result and are left out.
\<close>

subsection \<open>JavaScript strings\<close>

type_synonym jstring = "nat list"

type_synonym buffer = "string"

definition str :: "string \<Rightarrow> jstring" where
  "str s = map of_char s"

text \<open>\<^verbatim>\<open>String.prototype.indexOf(searchString, position)\<close>: the position is clamped to the
  string, the result is -1 when there is no occurrence at or after it.\<close>

fun index_from :: "jstring \<Rightarrow> jstring \<Rightarrow> nat \<Rightarrow> int" where
  "index_from pat [] i = (if pat = [] then int i else - 1)"
| "index_from pat (c # cs) i =
     (if take (length pat) (c # cs) = pat then int i else index_from pat cs (Suc i))"

definition js_indexOf :: "jstring \<Rightarrow> jstring \<Rightarrow> int \<Rightarrow> int" where
  "js_indexOf s pat position =
     (let k = nat (max 0 (min position (int (length s)))) in index_from pat (drop k s) k)"

text \<open>\<^verbatim>\<open>String.prototype.substring(start, end)\<close>: both indices are clamped to the string and
  swapped when the first is the larger.\<close>

definition js_substring :: "jstring \<Rightarrow> int \<Rightarrow> int \<Rightarrow> jstring" where
  "js_substring s start end =
     (let a = nat (max 0 (min start (int (length s))));
          b = nat (max 0 (min end (int (length s))));
          lo = min a b; hi = max a b
      in take (hi - lo) (drop lo s))"

text \<open>\<^verbatim>\<open>String.prototype.split('/')\<close>: never the empty list; \<^verbatim>\<open>''.split('/')\<close> is \<^verbatim>\<open>['']\<close>.\<close>

fun js_split :: "nat \<Rightarrow> jstring \<Rightarrow> jstring list" where
  "js_split sep [] = [[]]"
| "js_split sep (c # cs) =
     (if c = sep then [] # js_split sep cs
      else (case js_split sep cs of [] \<Rightarrow> [[c]] | w # ws \<Rightarrow> (c # w) # ws))"

text \<open>\<^verbatim>\<open>String.prototype.toLowerCase\<close> on the code units up to U+00FF (Basic Latin and Latin-1);
  it is applied to the digest only, whose alphabets are ASCII. Code units above U+00FF are
  left as they are.\<close>

definition lower_unit :: "nat \<Rightarrow> nat" where
  "lower_unit c =
     (if (65 \<le> c \<and> c \<le> 90) \<or> (192 \<le> c \<and> c \<le> 222 \<and> c \<noteq> 215) then c + 32 else c)"

definition js_toLowerCase :: "jstring \<Rightarrow> jstring" where
  "js_toLowerCase s = map lower_unit s"

subsection \<open>Buffers and UTF-8\<close>

text \<open>\<^verbatim>\<open>Buffer.prototype.toString()\<close> (and \<^verbatim>\<open>readFileSync(path, 'utf8')\<close>): UTF-8 decoding
  that puts U+FFFD for every maximal ill-formed subsequence and keeps a byte order mark.
  The arguments are the code point collected so far, the number of continuation bytes still
  needed, and the bounds the next continuation byte has to lie in.\<close>

definition utf16_units :: "nat \<Rightarrow> jstring" where
  "utf16_units cp =
     (if cp < 65536 then [cp]
      else [55296 + (cp - 65536) div 1024, 56320 + (cp - 65536) mod 1024])"

function utf8_decode :: "nat \<Rightarrow> nat \<Rightarrow> nat \<Rightarrow> nat \<Rightarrow> nat list \<Rightarrow> jstring" where
  "utf8_decode cp needed lo hi [] = (if needed = 0 then [] else [65533])"
| "utf8_decode cp needed lo hi (b # bs) =
     (if needed = 0 then
        (if b \<le> 127 then b # utf8_decode 0 0 128 191 bs
         else if 194 \<le> b \<and> b \<le> 223 then utf8_decode (b mod 32) 1 128 191 bs
         else if 224 \<le> b \<and> b \<le> 239 then
           utf8_decode (b mod 16) 2 (if b = 224 then 160 else 128) (if b = 237 then 159 else 191) bs
         else if 240 \<le> b \<and> b \<le> 244 then
           utf8_decode (b mod 8) 3 (if b = 240 then 144 else 128) (if b = 244 then 143 else 191) bs
         else 65533 # utf8_decode 0 0 128 191 bs)
      else if b < lo \<or> hi < b then 65533 # utf8_decode 0 0 128 191 (b # bs)
      else if needed = 1 then utf16_units (cp * 64 + b mod 64) @ utf8_decode 0 0 128 191 bs
      else utf8_decode (cp * 64 + b mod 64) (needed - 1) 128 191 bs)"
  by pat_completeness auto
termination
  by (relation "measure (\<lambda>(cp, needed, lo, hi, bs). 2 * length bs + (if needed = 0 then 0 else 1))")
     auto

definition Buffer_toString :: "buffer \<Rightarrow> jstring" where
  "Buffer_toString b = utf8_decode 0 0 128 191 (map of_char b)"

text \<open>\<^verbatim>\<open>Buffer.from(string)\<close>: UTF-8 encoding; a surrogate pair is one four-byte sequence, a
  lone surrogate is encoded as U+FFFD.\<close>

fun utf8_encode :: "jstring \<Rightarrow> nat list" where
  "utf8_encode [] = []"
| "utf8_encode (u # us) =
     (if u < 128 then u # utf8_encode us
      else if u < 2048 then (192 + u div 64) # (128 + u mod 64) # utf8_encode us
      else if 55296 \<le> u \<and> u \<le> 56319 then
        (case us of
           [] \<Rightarrow> [239, 191, 189]
         | v # vs \<Rightarrow>
             if 56320 \<le> v \<and> v \<le> 57343 then
               (let cp = 65536 + (u - 55296) * 1024 + (v - 56320)
                in (240 + cp div 262144) # (128 + cp div 4096 mod 64) #
                   (128 + cp div 64 mod 64) # (128 + cp mod 64) # utf8_encode vs)
             else 239 # 191 # 189 # utf8_encode us)
      else if 56320 \<le> u \<and> u \<le> 57343 then 239 # 191 # 189 # utf8_encode us
      else (224 + u div 4096) # (128 + u div 64 mod 64) # (128 + u mod 64) # utf8_encode us)"

definition Buffer_from :: "jstring \<Rightarrow> buffer" where
  "Buffer_from s = map char_of (utf8_encode s)"

definition Buffer_concat :: "buffer list \<Rightarrow> buffer" where
  "Buffer_concat bs = concat bs"

text \<open>\<^verbatim>\<open>Array.prototype.sort()\<close> without a comparison function on an array of Buffers: the
  elements are compared through their \<^verbatim>\<open>toString()\<close>, code unit by code unit, and elements
  whose strings are equal keep their order (the sort is stable).\<close>

definition Array_sort :: "buffer list \<Rightarrow> buffer list" where
  "Array_sort bs = sort_key Buffer_toString bs"

subsection \<open>The platform and the hashing options\<close>

datatype json =
    JNull
  | JBool bool
  | JNum bool
  | JStr jstring
  | JArr "json list"
  | JObj "(jstring \<times> json) list"

text \<open>A value read by \<^verbatim>\<open>JSON.parse\<close>. \<open>JObj\<close> lists the own properties in property order,
  each key once. The program only ever tests a number for truthiness, so \<open>JNum\<close> keeps that
  bit alone: \<open>JNum False\<close> is zero.

  \<open>JSON_parse\<close> gives \<open>None\<close> where \<^verbatim>\<open>JSON.parse\<close> throws a SyntaxError. \<open>getHashDigest\<close> is
  \<^verbatim>\<open>loaderUtils.getHashDigest(buffer, hashType, digestType, maxLength)\<close>.\<close>

record platform =
  JSON_parse :: "jstring \<Rightarrow> json option"
  getHashDigest :: "buffer \<Rightarrow> jstring \<Rightarrow> jstring \<Rightarrow> nat \<Rightarrow> jstring"
  process_cwd :: jstring

record hash_options =
  HASH_TYPE :: jstring
  DIGEST_TYPE :: jstring
  MAX_LENGTH :: nat

subsection \<open>\<^verbatim>\<open>_createHash\<close>\<close>

text \<open>The token is \<open>None\<close> where the source returns \<^verbatim>\<open>null\<close>. The argument is \<open>None\<close> for a
  missing buffer list (\<^verbatim>\<open>aBufferList || []\<close>).\<close>

definition createHash :: "platform \<Rightarrow> buffer list option \<Rightarrow> hash_options \<Rightarrow> jstring option" where
  "createHash pf aBufferList oOptions =
     (let aSortedBufferList = Array_sort (case aBufferList of None \<Rightarrow> [] | Some bs \<Rightarrow> bs)
      in if length aSortedBufferList > 0
         then Some (js_toLowerCase
                (getHashDigest pf (Buffer_concat aSortedBufferList)
                   (HASH_TYPE oOptions) (DIGEST_TYPE oOptions) (MAX_LENGTH oOptions)))
         else None)"

subsection \<open>Errors\<close>

text \<open>What the run can throw: the SyntaxError of \<^verbatim>\<open>JSON.parse\<close>, a TypeError (a property of
  \<^verbatim>\<open>undefined\<close> or \<^verbatim>\<open>null\<close>, a call of something that is no function, a path argument
  that is no string), and the errors of the \<^verbatim>\<open>fs\<close> calls with their code. \<open>RegExpBeyondModel\<close>
  is no error of the program: it marks a run that builds a regular expression from a directory
  name with syntax characters other than the dot, which this model does not interpret.\<close>

datatype errno = ENOENT | ENOTDIR | EISDIR | ENOTEMPTY | EINVAL

datatype error = SyntaxError | TypeError | FsError errno | RegExpBeyondModel

definition bindE :: "error + 'a \<Rightarrow> ('a \<Rightarrow> error + 'b) \<Rightarrow> error + 'b" where
  "bindE m f = (case m of Inl e \<Rightarrow> Inl e | Inr x \<Rightarrow> f x)"

text \<open>\<^verbatim>\<open>xs.map(f)\<close> and \<^verbatim>\<open>xs.reduce((acc, x) => acc.concat(f(x)), [])\<close> with a callback that
  may throw: the first error ends the loop.\<close>

fun mapE :: "('a \<Rightarrow> error + 'b) \<Rightarrow> 'a list \<Rightarrow> error + 'b list" where
  "mapE f [] = Inr []"
| "mapE f (x # xs) = bindE (f x) (\<lambda>y. bindE (mapE f xs) (\<lambda>ys. Inr (y # ys)))"

fun concatMapE :: "('a \<Rightarrow> error + 'b list) \<Rightarrow> 'a list \<Rightarrow> 'b list \<Rightarrow> error + 'b list" where
  "concatMapE f [] acc = Inr acc"
| "concatMapE f (x # xs) acc = bindE (f x) (\<lambda>ys. concatMapE f xs (acc @ ys))"

subsection \<open>JSON values as JavaScript values\<close>

text \<open>Decimal numerals, for the index keys of arrays and strings.\<close>

fun show_nat :: "nat \<Rightarrow> jstring" where
  "show_nat n = (if n < 10 then [48 + n] else show_nat (n div 10) @ [48 + n mod 10])"

declare show_nat.simps [simp del]

text \<open>The own enumerable properties, in the order of \<^verbatim>\<open>Object.keys\<close>.\<close>

fun own_properties :: "json \<Rightarrow> (jstring \<times> json) list" where
  "own_properties (JObj kvs) = kvs"
| "own_properties (JArr xs) = zip (map show_nat [0..<length xs]) xs"
| "own_properties (JStr s) = zip (map show_nat [0..<length s]) (map (\<lambda>c. JStr [c]) s)"
| "own_properties _ = []"

text \<open>\<^verbatim>\<open>Object.keys(v)\<close> throws a TypeError on \<^verbatim>\<open>null\<close>.\<close>

definition Object_keys :: "json \<Rightarrow> error + jstring list" where
  "Object_keys v = (case v of JNull \<Rightarrow> Inl TypeError | _ \<Rightarrow> Inr (map fst (own_properties v)))"

text \<open>\<^verbatim>\<open>v[key]\<close> and \<^verbatim>\<open>v.key\<close>: \<open>None\<close> is \<^verbatim>\<open>undefined\<close>; reading a property of \<^verbatim>\<open>undefined\<close>
  or \<^verbatim>\<open>null\<close> throws. The keys the program reads are \<^verbatim>\<open>sap.ui5\<close>, \<^verbatim>\<open>resources\<close>, \<^verbatim>\<open>uri\<close> and
  keys that \<^verbatim>\<open>Object.keys\<close> returned, none of which is inherited from a prototype.\<close>

definition js_get :: "json option \<Rightarrow> jstring \<Rightarrow> error + json option" where
  "js_get v key =
     (case v of
        None \<Rightarrow> Inl TypeError
      | Some JNull \<Rightarrow> Inl TypeError
      | Some w \<Rightarrow> Inr (map_of (own_properties w) key))"

fun truthy :: "json option \<Rightarrow> bool" where
  "truthy None = False"
| "truthy (Some JNull) = False"
| "truthy (Some (JBool b)) = b"
| "truthy (Some (JNum nonzero)) = nonzero"
| "truthy (Some (JStr s)) = (s \<noteq> [])"
| "truthy (Some (JArr xs)) = True"
| "truthy (Some (JObj kvs)) = True"

text \<open>\<^verbatim>\<open>JSON.stringify\<close> of an object all of whose values are strings. Code unit 92 is the
  backslash, 34 the double quote, 58 the colon, 44 the comma, 123 and 125 the braces.\<close>

definition hex_digit :: "nat \<Rightarrow> nat" where
  "hex_digit d = (if d < 10 then 48 + d else 87 + d)"

definition quote_unit :: "nat \<Rightarrow> jstring" where
  "quote_unit c =
     (if c = 8 then [92, 98] else if c = 9 then [92, 116] else if c = 10 then [92, 110]
      else if c = 12 then [92, 102] else if c = 13 then [92, 114]
      else if c = 34 then [92, 34] else if c = 92 then [92, 92]
      else if c < 32 \<or> (55296 \<le> c \<and> c \<le> 57343) then
        [92, 117] @ map hex_digit [c div 4096, c div 256 mod 16, c div 16 mod 16, c mod 16]
      else [c])"

text \<open>A surrogate pair is copied; only a lone surrogate is escaped.\<close>

fun quote_units :: "jstring \<Rightarrow> jstring" where
  "quote_units [] = []"
| "quote_units [c] = quote_unit c"
| "quote_units (c # d # cs) =
     (if 55296 \<le> c \<and> c \<le> 56319 \<and> 56320 \<le> d \<and> d \<le> 57343 then c # d # quote_units cs
      else quote_unit c @ quote_units (d # cs))"

definition quote_json :: "jstring \<Rightarrow> jstring" where
  "quote_json s = [34] @ quote_units s @ [34]"

fun stringify_members :: "(jstring \<times> jstring) list \<Rightarrow> jstring" where
  "stringify_members [] = []"
| "stringify_members [(k, v)] = quote_json k @ [58] @ quote_json v"
| "stringify_members ((k, v) # kv # kvs) =
     quote_json k @ [58] @ quote_json v @ [44] @ stringify_members (kv # kvs)"

definition JSON_stringify :: "(jstring \<times> jstring) list \<Rightarrow> jstring" where
  "JSON_stringify members = [123] @ stringify_members members @ [125]"

text \<open>\<^verbatim>\<open>o[key] = value\<close> on an object built from \<^verbatim>\<open>{}\<close>: a new key goes to the end, and the
  key \<^verbatim>\<open>__proto__\<close> is the setter of \<^verbatim>\<open>Object.prototype\<close>, which drops a string. The keys
  arrive in the order of \<^verbatim>\<open>Object.keys\<close>, so the property order is the assignment order.\<close>

fun assign_key :: "jstring \<Rightarrow> jstring \<Rightarrow> (jstring \<times> jstring) list \<Rightarrow> (jstring \<times> jstring) list" where
  "assign_key k v [] = [(k, v)]"
| "assign_key k v ((k', v') # kvs) =
     (if k = k' then (k, v) # kvs else (k', v') # assign_key k v kvs)"

definition object_set :: "(jstring \<times> jstring) list \<Rightarrow> jstring \<Rightarrow> jstring \<Rightarrow> (jstring \<times> jstring) list" where
  "object_set obj k v = (if k = str ''__proto__'' then obj else assign_key k v obj)"

subsection \<open>POSIX paths\<close>

definition join_slash :: "jstring list \<Rightarrow> jstring" where
  "join_slash cs = concat (map (\<lambda>c. 47 # c) cs)"

text \<open>\<^verbatim>\<open>normalizeString\<close> of an absolute path: empty segments and \<^verbatim>\<open>.\<close> are dropped, \<^verbatim>\<open>..\<close>
  removes the segment before it and is dropped at the root.\<close>

fun normalize_segments :: "jstring list \<Rightarrow> jstring list \<Rightarrow> jstring list" where
  "normalize_segments acc [] = acc"
| "normalize_segments acc (c # cs) =
     (if c = [] \<or> c = [46] then normalize_segments acc cs
      else if c = [46, 46] then normalize_segments (butlast acc) cs
      else normalize_segments (acc @ [c]) cs)"

text \<open>\<^verbatim>\<open>path.resolve(...paths)\<close>: the arguments are taken from the right until one is
  absolute, then the working directory of the process (an absolute path); empty arguments
  are skipped. The result is absolute and normalised, without a trailing slash.\<close>

fun resolve_collect :: "jstring list \<Rightarrow> jstring \<Rightarrow> jstring" where
  "resolve_collect [] resolved = resolved"
| "resolve_collect (p # ps) resolved =
     (if p = [] then resolve_collect ps resolved
      else if hd p = 47 then p @ [47] @ resolved
      else resolve_collect ps (p @ [47] @ resolved))"

definition path_resolve :: "platform \<Rightarrow> jstring list \<Rightarrow> jstring" where
  "path_resolve pf paths =
     (let resolved = resolve_collect (rev paths @ [process_cwd pf]) [];
          segments = normalize_segments [] (js_split 47 resolved)
      in if segments = [] then [47] else join_slash segments)"

text \<open>\<^verbatim>\<open>path.dirname(path)\<close>: the scan runs from the end down to index 1, skips the trailing
  slashes and the last segment, and cuts the path at the slash it then meets.\<close>

definition path_dirname :: "jstring \<Rightarrow> jstring" where
  "path_dirname p =
     (if p = [] then [46]
      else
        (let hasRoot = (hd p = 47);
             upToEnd = dropWhile (\<lambda>c. c \<noteq> 47) (dropWhile (\<lambda>c. c = 47) (rev (tl p)))
         in if upToEnd = [] then (if hasRoot then [47] else [46])
            else if hasRoot \<and> length upToEnd = 1 then [47, 47]
            else hd p # rev (tl upToEnd)))"

subsection \<open>The file system\<close>

text \<open>A directory lists its entries in the order \<^verbatim>\<open>readdirSync\<close> reports them, which the
  operating system chooses. Paths are absolute (every path the program hands to \<^verbatim>\<open>fs\<close> comes
  out of \<^verbatim>\<open>path.resolve\<close>) and are followed from the root; symbolic links are not modelled.\<close>

datatype node = File buffer | Dir "(jstring \<times> node) list"

definition path_segments :: "jstring \<Rightarrow> jstring list" where
  "path_segments p = filter (\<lambda>c. c \<noteq> []) (js_split 47 p)"

fun lookup :: "node \<Rightarrow> jstring list \<Rightarrow> errno + node" where
  "lookup n [] = Inr n"
| "lookup (File b) (c # cs) = Inl ENOTDIR"
| "lookup (Dir entries) (c # cs) =
     (case map_of entries c of None \<Rightarrow> Inl ENOENT | Some n \<Rightarrow> lookup n cs)"

definition existsSync :: "node \<Rightarrow> jstring \<Rightarrow> bool" where
  "existsSync fs p = (case lookup fs (path_segments p) of Inl e \<Rightarrow> False | Inr n \<Rightarrow> True)"

definition readFileSync :: "node \<Rightarrow> jstring \<Rightarrow> error + jstring" where
  "readFileSync fs p =
     (case lookup fs (path_segments p) of
        Inl e \<Rightarrow> Inl (FsError e)
      | Inr (Dir entries) \<Rightarrow> Inl (FsError EISDIR)
      | Inr (File b) \<Rightarrow> Inr (Buffer_toString b))"

definition readdirSync :: "node \<Rightarrow> jstring \<Rightarrow> error + jstring list" where
  "readdirSync fs p =
     (case lookup fs (path_segments p) of
        Inl e \<Rightarrow> Inl (FsError e)
      | Inr (File b) \<Rightarrow> Inl (FsError ENOTDIR)
      | Inr (Dir entries) \<Rightarrow> Inr (map fst entries))"

text \<open>\<^verbatim>\<open>fs.statSync(p).isDirectory()\<close>\<close>

definition isDirectory :: "node \<Rightarrow> jstring \<Rightarrow> error + bool" where
  "isDirectory fs p =
     (case lookup fs (path_segments p) of
        Inl e \<Rightarrow> Inl (FsError e)
      | Inr (File b) \<Rightarrow> Inr False
      | Inr (Dir entries) \<Rightarrow> Inr True)"

text \<open>Taking an entry out of the tree and putting one in. \<open>put\<close> replaces an entry of the
  same name where there is one and appends otherwise; it needs the parent directory to exist.\<close>

fun remove_entry :: "jstring \<Rightarrow> (jstring \<times> node) list \<Rightarrow> (jstring \<times> node) list" where
  "remove_entry c [] = []"
| "remove_entry c ((k, n) # es) = (if k = c then es else (k, n) # remove_entry c es)"

fun put_entry :: "jstring \<Rightarrow> node \<Rightarrow> (jstring \<times> node) list \<Rightarrow> (jstring \<times> node) list" where
  "put_entry c n [] = [(c, n)]"
| "put_entry c n ((k, m) # es) = (if k = c then (c, n) # es else (k, m) # put_entry c n es)"

fun change_entry :: "jstring \<Rightarrow> (node \<Rightarrow> node) \<Rightarrow> (jstring \<times> node) list \<Rightarrow> (jstring \<times> node) list" where
  "change_entry c f [] = []"
| "change_entry c f ((k, m) # es) = (if k = c then (k, f m) # es else (k, m) # change_entry c f es)"

fun remove :: "jstring list \<Rightarrow> node \<Rightarrow> node" where
  "remove [] n = n"
| "remove cs (File b) = File b"
| "remove [c] (Dir entries) = Dir (remove_entry c entries)"
| "remove (c # d # cs) (Dir entries) = Dir (change_entry c (remove (d # cs)) entries)"

fun put :: "jstring list \<Rightarrow> node \<Rightarrow> node \<Rightarrow> node" where
  "put [] new n = n"
| "put cs new (File b) = File b"
| "put [c] new (Dir entries) = Dir (put_entry c new entries)"
| "put (c # d # cs) new (Dir entries) = Dir (change_entry c (put (d # cs) new) entries)"

text \<open>\<^verbatim>\<open>fs.renameSync(oldPath, newPath)\<close>, after rename(2): the old path must exist; renaming
  a path to itself does nothing; a directory cannot move below itself; the parent of the new
  path must be a directory; an existing target is replaced when it is a file for a file or
  an empty directory for a directory.\<close>

definition renameSync :: "node \<Rightarrow> jstring \<Rightarrow> jstring \<Rightarrow> error + node" where
  "renameSync fs oldPath newPath =
     (let old = path_segments oldPath; new = path_segments newPath
      in case lookup fs old of
           Inl e \<Rightarrow> Inl (FsError e)
         | Inr moved \<Rightarrow>
             if old = new then Inr fs
             else if take (length old) new = old then Inl (FsError EINVAL)
             else
               (case lookup fs (butlast new) of
                  Inl e \<Rightarrow> Inl (FsError e)
                | Inr (File b) \<Rightarrow> Inl (FsError ENOTDIR)
                | Inr (Dir siblings) \<Rightarrow>
                    (case (moved, lookup fs new) of
                       (Dir es, Inr (File b)) \<Rightarrow> Inl (FsError ENOTDIR)
                     | (Dir es, Inr (Dir (t # ts))) \<Rightarrow> Inl (FsError ENOTEMPTY)
                     | (File a, Inr (Dir ts)) \<Rightarrow> Inl (FsError EISDIR)
                     | _ \<Rightarrow> Inr (put new moved (remove old fs)))))"

subsection \<open>\<^verbatim>\<open>String.prototype.replace\<close> with the regular expressions of the program\<close>

text \<open>The replacement text of \<^verbatim>\<open>replace\<close> (GetSubstitution of ECMA-262): \<^verbatim>\<open>$$\<close> is a dollar
  sign, \<^verbatim>\<open>$&\<close> the match, \<^verbatim>\<open>$`\<close> the text before it, \<^verbatim>\<open>$'\<close> the text after it, \<^verbatim>\<open>$n\<close> and
  \<^verbatim>\<open>$nn\<close> a capture when there is one with that number; anything else stands for itself.
  Code unit 36 is the dollar sign.\<close>

definition is_digit :: "nat \<Rightarrow> bool" where
  "is_digit c = (48 \<le> c \<and> c \<le> 57)"

fun GetSubstitution :: "jstring \<Rightarrow> jstring \<Rightarrow> jstring \<Rightarrow> jstring list \<Rightarrow> jstring \<Rightarrow> jstring" where
  "GetSubstitution matched preceding following captures [] = []"
| "GetSubstitution matched preceding following captures [c] = [c]"
| "GetSubstitution matched preceding following captures (c # d # rest) =
     (if c \<noteq> 36 then c # GetSubstitution matched preceding following captures (d # rest)
      else if d = 36 then 36 # GetSubstitution matched preceding following captures rest
      else if d = 96 then preceding @ GetSubstitution matched preceding following captures rest
      else if d = 38 then matched @ GetSubstitution matched preceding following captures rest
      else if d = 39 then following @ GetSubstitution matched preceding following captures rest
      else if is_digit d then
        (case rest of
           [] \<Rightarrow>
             (if 1 \<le> d - 48 \<and> d - 48 \<le> length captures then captures ! (d - 49) else [36, d])
         | e # rest' \<Rightarrow>
             if is_digit e \<and> (d - 48) * 10 + (e - 48) \<le> length captures then
               (if 1 \<le> (d - 48) * 10 + (e - 48)
                then captures ! ((d - 48) * 10 + (e - 48) - 1) else [36, d, e])
               @ GetSubstitution matched preceding following captures rest'
             else
               (if 1 \<le> d - 48 \<and> d - 48 \<le> length captures then captures ! (d - 49) else [36, d])
               @ GetSubstitution matched preceding following captures (e # rest'))
      else 36 # GetSubstitution matched preceding following captures (d # rest))"

text \<open>The program builds regular expressions from the last segment of a declared path. The
  model reads such a pattern when it has no syntax character other than the dot: every code
  unit then stands for itself and the dot for any code unit that is no line terminator.\<close>

definition syntax_character :: "nat \<Rightarrow> bool" where
  "syntax_character c = (c \<in> set [94, 36, 92, 42, 43, 63, 40, 41, 91, 93, 123, 125, 124])"

definition within_model :: "jstring \<Rightarrow> bool" where
  "within_model pat = (filter syntax_character pat = [])"

definition line_terminator :: "nat \<Rightarrow> bool" where
  "line_terminator c = (c = 10 \<or> c = 13 \<or> c = 8232 \<or> c = 8233)"

definition unit_matches :: "nat \<Rightarrow> nat \<Rightarrow> bool" where
  "unit_matches p c = (if p = 46 then \<not> line_terminator c else p = c)"

definition matches_at :: "jstring \<Rightarrow> jstring \<Rightarrow> bool" where
  "matches_at pat s = (length pat \<le> length s \<and> list_all2 unit_matches pat (take (length pat) s))"

text \<open>\<^verbatim>\<open>s.replace(new RegExp(`${pat}$`), template)\<close>: the pattern has a fixed length and the
  dollar sign asserts the end of the input, so the only place of a match is the end.\<close>

definition replace_at_end :: "jstring \<Rightarrow> jstring \<Rightarrow> jstring \<Rightarrow> error + jstring" where
  "replace_at_end s pat template =
     (if \<not> within_model pat then Inl RegExpBeyondModel
      else
        (let k = length s - length pat
         in if length pat \<le> length s \<and> matches_at pat (drop k s)
            then Inr (take k s @ GetSubstitution (drop k s) (take k s) [] [] template)
            else Inr s))"

text \<open>\<^verbatim>\<open>s.replace(new RegExp(pat), template)\<close>: the leftmost match is replaced.\<close>

fun find_match :: "jstring \<Rightarrow> jstring \<Rightarrow> nat option" where
  "find_match pat [] = (if pat = [] then Some 0 else None)"
| "find_match pat (c # cs) =
     (if matches_at pat (c # cs) then Some 0 else map_option Suc (find_match pat cs))"

definition replace_first :: "jstring \<Rightarrow> jstring \<Rightarrow> jstring \<Rightarrow> error + jstring" where
  "replace_first s pat template =
     (if \<not> within_model pat then Inl RegExpBeyondModel
      else
        (case find_match pat s of
           None \<Rightarrow> Inr s
         | Some i \<Rightarrow>
             Inr (take i s
                  @ GetSubstitution (take (length pat) (drop i s)) (take i s)
                      (drop (i + length pat) s) [] template
                  @ drop (i + length pat) s)))"

text \<open>\<^verbatim>\<open>s.replace(new RegExp(`(\\\\|/)UI5$`), '')\<close>: a final \<^verbatim>\<open>/UI5\<close> or \<^verbatim>\<open>\UI5\<close> is cut off.\<close>

definition strip_UI5 :: "jstring \<Rightarrow> jstring" where
  "strip_UI5 s =
     (let k = length s - 4
      in if 4 \<le> length s \<and> (s ! k = 92 \<or> s ! k = 47) \<and> drop (Suc k) s = str ''UI5''
         then take k s else s)"

text \<open>\<^verbatim>\<open>s.replace(/marker='(.*)'/g, template)\<close> with \<open>opening\<close> the marker and the quote
  after it. The group is greedy and the dot stops at a line terminator, so a match runs from
  the marker to the last single quote of the line. Every match is replaced; \<open>preceding\<close> is the
  text already passed. Code unit 39 is the single quote.\<close>

definition last_quote :: "jstring \<Rightarrow> nat option" where
  "last_quote s =
     (let line = takeWhile (\<lambda>c. \<not> line_terminator c) s;
          upToQuote = dropWhile (\<lambda>c. c \<noteq> 39) (rev line)
      in if upToQuote = [] then None else Some (length upToQuote - 1))"

function replace_all :: "jstring \<Rightarrow> jstring \<Rightarrow> jstring \<Rightarrow> jstring \<Rightarrow> jstring" where
  "replace_all opening template preceding [] = []"
| "replace_all opening template preceding (c # cs) =
     (if take (length opening) (c # cs) = opening then
        (case last_quote (drop (length opening) (c # cs)) of
           None \<Rightarrow> c # replace_all opening template (preceding @ [c]) cs
         | Some k \<Rightarrow>
             GetSubstitution (take (length opening + k + 1) (c # cs)) preceding
               (drop (length opening + k + 1) (c # cs))
               [take k (drop (length opening) (c # cs))] template
             @ replace_all opening template (preceding @ take (length opening + k + 1) (c # cs))
                 (drop (length opening + k + 1) (c # cs)))
      else c # replace_all opening template (preceding @ [c]) cs)"
  by pat_completeness auto
termination
  by (relation "measure (\<lambda>(opening, template, preceding, s). length s)") auto

declare replace_all.simps [simp del]

subsection \<open>\<^verbatim>\<open>_readAllFiles\<close>\<close>

text \<open>The loop over the entries of a directory. A subdirectory is read by the call
  \<^verbatim>\<open>_readAllFiles(`${sDir}/${sFileName}`)\<close>, which passes no allow-list, so that the default
  \<^verbatim>\<open>[]\<close> applies below the first level. The names of a directory are distinct, so the entry
  at \<^verbatim>\<open>`${sDir}/${sFileName}`\<close> is the entry the loop is at.\<close>

fun read_entries :: "jstring list \<Rightarrow> (jstring \<times> node) list \<Rightarrow> jstring list" where
  "read_entries aWhitelist [] = []"
| "read_entries aWhitelist ((sFileName, Dir sub) # rest) =
     read_entries [] sub @ read_entries aWhitelist rest"
| "read_entries aWhitelist ((sFileName, File b) # rest) =
     (if length aWhitelist = 0 \<or> sFileName \<in> set aWhitelist then [Buffer_toString b] else [])
     @ read_entries aWhitelist rest"

definition readAllFiles :: "node \<Rightarrow> jstring \<Rightarrow> jstring list \<Rightarrow> error + jstring list" where
  "readAllFiles fs sDir aWhitelist =
     (case lookup fs (path_segments sDir) of
        Inl e \<Rightarrow> Inl (FsError e)
      | Inr (File b) \<Rightarrow> Inl (FsError ENOTDIR)
      | Inr (Dir entries) \<Rightarrow> Inr (read_entries aWhitelist entries))"

subsection \<open>The hash strategies\<close>

text \<open>\<^verbatim>\<open>oResource => fs.readFileSync(path.resolve(sResolvedModulePath, oResource.uri), 'utf8')\<close>\<close>

definition read_resource :: "platform \<Rightarrow> node \<Rightarrow> jstring \<Rightarrow> json \<Rightarrow> error + jstring" where
  "read_resource pf fs sResolvedModulePath oResource =
     bindE (js_get (Some oResource) (str ''uri'')) (\<lambda>uri.
       case uri of
         Some (JStr u) \<Rightarrow> readFileSync fs (path_resolve pf [sResolvedModulePath, u])
       | _ \<Rightarrow> Inl TypeError)"

text \<open>\<^verbatim>\<open>resources[sResourceKey].map(...)\<close>: only an array has \<^verbatim>\<open>map\<close>.\<close>

definition read_category :: "platform \<Rightarrow> node \<Rightarrow> jstring \<Rightarrow> json \<Rightarrow> jstring \<Rightarrow> error + jstring list" where
  "read_category pf fs sResolvedModulePath resources sResourceKey =
     bindE (js_get (Some resources) sResourceKey) (\<lambda>category.
       case category of
         Some (JArr aResources) \<Rightarrow> mapE (read_resource pf fs sResolvedModulePath) aResources
       | _ \<Rightarrow> Inl TypeError)"

text \<open>The value of \<^verbatim>\<open>oManifestJSON\<close> in \<^verbatim>\<open>_getUi5AppHash\<close>. An empty manifest file is a falsy
  string and stands for no manifest.\<close>

definition oManifestJSON :: "platform \<Rightarrow> node \<Rightarrow> jstring \<Rightarrow> error + json" where
  "oManifestJSON pf fs sResolvedModulePath =
     (let sManifestPath = path_resolve pf [sResolvedModulePath, str ''manifest.json''] in
      bindE (if existsSync fs sManifestPath
             then bindE (readFileSync fs sManifestPath) (\<lambda>sContent. Inr (Some sContent))
             else Inr None) (\<lambda>oManifestFileContent.
        case oManifestFileContent of
          Some (c # cs) \<Rightarrow>
            (case JSON_parse pf (c # cs) of None \<Rightarrow> Inl SyntaxError | Some j \<Rightarrow> Inr j)
        | _ \<Rightarrow> Inr (JObj [(str ''sap.ui5'', JObj [])])))"

text \<open>The value of \<^verbatim>\<open>aDependedResourceContents\<close>: the keys of
  \<^verbatim>\<open>oManifestJSON['sap.ui5'].resources\<close> when that is truthy, and under each key the files
  of its entries.\<close>

definition aDependedResourceContents :: "platform \<Rightarrow> node \<Rightarrow> jstring \<Rightarrow> json \<Rightarrow> error + jstring list" where
  "aDependedResourceContents pf fs sResolvedModulePath manifest =
     bindE (js_get (Some manifest) (str ''sap.ui5'')) (\<lambda>ui5.
     bindE (js_get ui5 (str ''resources'')) (\<lambda>resources.
       case resources of
         None \<Rightarrow> Inr []
       | Some r \<Rightarrow>
           if truthy (Some r) then
             bindE (Object_keys r) (\<lambda>aResourceKeys.
               concatMapE (read_category pf fs sResolvedModulePath r) aResourceKeys [])
           else Inr []))"

text \<open>The buffer list \<^verbatim>\<open>aBufferList\<close> of \<^verbatim>\<open>_getUi5AppHash\<close>. An empty preload file is a falsy
  string and adds no buffer.\<close>

definition Ui5App_aBufferList :: "platform \<Rightarrow> node \<Rightarrow> jstring \<Rightarrow> jstring \<Rightarrow> error + buffer list" where
  "Ui5App_aBufferList pf fs sResolvedModulePath sPreloadPath =
     bindE (readFileSync fs sPreloadPath) (\<lambda>oPreloadFileContent.
     bindE (oManifestJSON pf fs sResolvedModulePath) (\<lambda>manifest.
     bindE (aDependedResourceContents pf fs sResolvedModulePath manifest) (\<lambda>aDepended.
       Inr (map Buffer_from
              (aDepended @ (if oPreloadFileContent \<noteq> [] then [oPreloadFileContent] else []))))))"

definition getUi5AppHash ::
  "platform \<Rightarrow> node \<Rightarrow> jstring \<Rightarrow> jstring \<Rightarrow> hash_options \<Rightarrow> error + jstring option" where
  "getUi5AppHash pf fs sResolvedModulePath sPreloadPath oOptions =
     bindE (Ui5App_aBufferList pf fs sResolvedModulePath sPreloadPath) (\<lambda>aBufferList.
       Inr (createHash pf (Some aBufferList) oOptions))"

definition getUi5LibHash ::
  "platform \<Rightarrow> node \<Rightarrow> jstring \<Rightarrow> jstring \<Rightarrow> hash_options \<Rightarrow> error + jstring option" where
  "getUi5LibHash pf fs sResolvedModulePath sLibPreloadPath oOptions =
     bindE (readFileSync fs sLibPreloadPath) (\<lambda>oLibPreloadFileContent.
       Inr (createHash pf (Some (map Buffer_from [oLibPreloadFileContent])) oOptions))"

definition getAssetsHash ::
  "platform \<Rightarrow> node \<Rightarrow> jstring \<Rightarrow> hash_options \<Rightarrow> error + jstring option" where
  "getAssetsHash pf fs sResolvedModulePath oOptions =
     bindE (readAllFiles fs sResolvedModulePath []) (\<lambda>aAssetContents.
       Inr (createHash pf (Some (map Buffer_from aAssetContents)) oOptions))"

definition getThemeRootHash ::
  "platform \<Rightarrow> node \<Rightarrow> jstring \<Rightarrow> jstring \<Rightarrow> hash_options \<Rightarrow> error + jstring option" where
  "getThemeRootHash pf fs sThemeRootPath sThemeName oOptions =
     bindE (readAllFiles fs sThemeRootPath []) (\<lambda>aAssetContents.
       Inr (createHash pf (Some (map Buffer_from aAssetContents)) oOptions))"

subsection \<open>\<^verbatim>\<open>ui5Bust\<close>, part one: the resource roots\<close>

record vinyl =
  cwd :: jstring
  path :: jstring
  contents :: buffer

text \<open>The value of the variable \<^verbatim>\<open>sNewHash\<close>: a token, \<^verbatim>\<open>null\<close>, or \<^verbatim>\<open>undefined\<close> when the
  function that chooses the strategy falls through all its branches.\<close>

datatype new_hash = Undefined | Null | Hash jstring

text \<open>\<^verbatim>\<open>token || null\<close>: the empty string becomes \<^verbatim>\<open>null\<close>.\<close>

definition or_null :: "jstring option \<Rightarrow> new_hash" where
  "or_null t = (case t of None \<Rightarrow> Null | Some [] \<Rightarrow> Null | Some (c # cs) \<Rightarrow> Hash (c # cs))"

text \<open>\<^verbatim>\<open>sNewHash ? ... : ...\<close>\<close>

definition hash_truthy :: "new_hash \<Rightarrow> bool" where
  "hash_truthy h = (case h of Hash (c # cs) \<Rightarrow> True | _ \<Rightarrow> False)"

text \<open>\<^verbatim>\<open>'-' + sNewHash\<close>: string concatenation writes \<^verbatim>\<open>null\<close> and \<^verbatim>\<open>undefined\<close> out.\<close>

definition hash_text :: "new_hash \<Rightarrow> jstring" where
  "hash_text h = (case h of Undefined \<Rightarrow> str ''undefined'' | Null \<Rightarrow> str ''null'' | Hash t \<Rightarrow> t)"

definition preload_path :: "platform \<Rightarrow> jstring \<Rightarrow> jstring" where
  "preload_path pf sResolvedModulePath = path_resolve pf [sResolvedModulePath, str ''Component-preload.js'']"

definition lib_preload_path :: "platform \<Rightarrow> jstring \<Rightarrow> jstring" where
  "lib_preload_path pf sResolvedModulePath = path_resolve pf [sResolvedModulePath, str ''library-preload.js'']"

definition isUi5App :: "platform \<Rightarrow> node \<Rightarrow> jstring \<Rightarrow> bool" where
  "isUi5App pf fs sResolvedModulePath = existsSync fs (preload_path pf sResolvedModulePath)"

definition isUi5Lib :: "platform \<Rightarrow> node \<Rightarrow> jstring \<Rightarrow> bool" where
  "isUi5Lib pf fs sResolvedModulePath = existsSync fs (lib_preload_path pf sResolvedModulePath)"

definition isAssetsDir :: "platform \<Rightarrow> node \<Rightarrow> jstring \<Rightarrow> bool" where
  "isAssetsDir pf fs sResolvedModulePath =
     (\<not> isUi5App pf fs sResolvedModulePath \<and> \<not> isUi5Lib pf fs sResolvedModulePath)"

text \<open>The function expression that computes \<^verbatim>\<open>sNewHash\<close> for a module.\<close>

definition module_hash :: "platform \<Rightarrow> node \<Rightarrow> jstring \<Rightarrow> hash_options \<Rightarrow> error + new_hash" where
  "module_hash pf fs sResolvedModulePath oValidatedHashOptions =
     (if isUi5App pf fs sResolvedModulePath then
        bindE (getUi5AppHash pf fs sResolvedModulePath (preload_path pf sResolvedModulePath)
                 oValidatedHashOptions) (\<lambda>t. Inr (or_null t))
      else if isUi5Lib pf fs sResolvedModulePath then
        bindE (getUi5LibHash pf fs sResolvedModulePath (lib_preload_path pf sResolvedModulePath)
                 oValidatedHashOptions) (\<lambda>t. Inr (or_null t))
      else if isAssetsDir pf fs sResolvedModulePath then
        bindE (getAssetsHash pf fs sResolvedModulePath oValidatedHashOptions) (\<lambda>t. Inr (or_null t))
      else Inr Undefined)"

text \<open>One round of the loop over the module names: the file system and the new declaration
  map go in and come out. A round that throws has changed neither.\<close>

definition resource_root_entry ::
  "platform \<Rightarrow> vinyl \<Rightarrow> hash_options \<Rightarrow> json \<Rightarrow> node \<Rightarrow> (jstring \<times> jstring) list \<Rightarrow> jstring
   \<Rightarrow> error + node \<times> (jstring \<times> jstring) list" where
  "resource_root_entry pf oHTMLFile oValidatedHashOptions oResouceRoots fs oNewResouceRoots sModuleName =
     bindE (js_get (Some oResouceRoots) sModuleName) (\<lambda>value.
       case value of
         Some (JStr sModulePath) \<Rightarrow>
           (let sResolvedModulePath =
                  path_resolve pf [cwd oHTMLFile, path_dirname (path oHTMLFile), sModulePath]
            in
            bindE (module_hash pf fs sResolvedModulePath oValidatedHashOptions) (\<lambda>sNewHash.
            let aPathChain = js_split 47 sModulePath;
                sOriginDirectory = last aPathChain
            in
            bindE (if hash_truthy sNewHash
                   then replace_at_end sResolvedModulePath sOriginDirectory
                          (sOriginDirectory @ str ''-'' @ hash_text sNewHash)
                   else Inr sResolvedModulePath) (\<lambda>sNewHashedModulePath.
            bindE (replace_at_end sModulePath sOriginDirectory
                     (sOriginDirectory @ str ''-'' @ hash_text sNewHash)) (\<lambda>sNewHashedPath.
            bindE (renameSync fs sResolvedModulePath sNewHashedModulePath) (\<lambda>fs'.
            Inr (fs', object_set oNewResouceRoots sModuleName sNewHashedPath))))))
       | _ \<Rightarrow> Inl TypeError)"

text \<open>\<^verbatim>\<open>names.reduce(step, {})\<close> over the file system: the first error ends the loop, and the
  file system is then the one the earlier rounds have left.\<close>

fun reduce_entries ::
  "(node \<Rightarrow> 'm \<Rightarrow> jstring \<Rightarrow> error + node \<times> 'm) \<Rightarrow> jstring list \<Rightarrow> node \<Rightarrow> 'm \<Rightarrow> (error + 'm) \<times> node" where
  "reduce_entries step [] fs acc = (Inr acc, fs)"
| "reduce_entries step (name # names) fs acc =
     (case step fs acc name of
        Inl e \<Rightarrow> (Inl e, fs)
      | Inr (fs', acc') \<Rightarrow> reduce_entries step names fs' acc')"

subsection \<open>\<^verbatim>\<open>ui5Bust\<close>, part two: the theme roots\<close>

definition theme_root_entry ::
  "platform \<Rightarrow> vinyl \<Rightarrow> hash_options \<Rightarrow> json \<Rightarrow> node \<Rightarrow> (jstring \<times> jstring) list \<Rightarrow> jstring
   \<Rightarrow> error + node \<times> (jstring \<times> jstring) list" where
  "theme_root_entry pf oHTMLFile oValidatedHashOptions oThemeRoots fs oNewThemeRoots sThemeName =
     bindE (js_get (Some oThemeRoots) sThemeName) (\<lambda>value.
       case value of
         Some (JStr sThemeRootPath) \<Rightarrow>
           (let sResolvedThemeRootPath =
                  path_resolve pf [cwd oHTMLFile, path_dirname (path oHTMLFile), sThemeRootPath];
                isValidThemeRoot = existsSync fs sResolvedThemeRootPath
            in
            bindE (if isValidThemeRoot
                   then bindE (getThemeRootHash pf fs sResolvedThemeRootPath sThemeName
                                 oValidatedHashOptions) (\<lambda>t. Inr (or_null t))
                   else Inr Null) (\<lambda>sNewHash.
            bindE (replace_at_end sThemeRootPath (str ''/UI5'') []) (\<lambda>sWithoutUI5.
            let aPathChain = js_split 47 sWithoutUI5;
                sOriginDirectory = last aPathChain
            in
            bindE (replace_first sResolvedThemeRootPath (sOriginDirectory @ str ''/UI5'')
                     (sOriginDirectory @ str ''-'' @ hash_text sNewHash)) (\<lambda>sNewHashedThemeRootPath.
            bindE (replace_first sThemeRootPath (sOriginDirectory @ str ''/UI5'')
                     (sOriginDirectory @ str ''-'' @ hash_text sNewHash @ str ''/UI5'')) (\<lambda>sNewHashedPath.
            let sPathBefore = strip_UI5 sResolvedThemeRootPath in
            bindE (renameSync fs sPathBefore sNewHashedThemeRootPath) (\<lambda>fs'.
            Inr (fs', object_set oNewThemeRoots sThemeName sNewHashedPath)))))))
       | _ \<Rightarrow> Inl TypeError)"

subsection \<open>\<^verbatim>\<open>ui5Bust\<close>\<close>

text \<open>The options argument: \<open>None\<close> is an omitted argument or property. A given options object
  without the property \<^verbatim>\<open>hash\<close> makes the destructuring of \<^verbatim>\<open>undefined\<close> throw.\<close>

record hash_settings =
  hash_type :: "jstring option"
  hash_digestType :: "jstring option"
  hash_maxLength :: "nat option"

record options =
  hash :: "hash_settings option"

definition validated_options :: "options option \<Rightarrow> error + hash_options" where
  "validated_options oOptions =
     (case (case oOptions of
              None \<Rightarrow> Some \<lparr>hash_type = None, hash_digestType = None, hash_maxLength = None\<rparr>
            | Some given \<Rightarrow> hash given) of
        None \<Rightarrow> Inl TypeError
      | Some oHashOptions \<Rightarrow>
          Inr \<lparr>HASH_TYPE = (case hash_type oHashOptions of None \<Rightarrow> str ''sha512'' | Some t \<Rightarrow> t),
               DIGEST_TYPE = (case hash_digestType oHashOptions of None \<Rightarrow> str ''base62'' | Some d \<Rightarrow> d),
               MAX_LENGTH = (case hash_maxLength oHashOptions of None \<Rightarrow> 8 | Some n \<Rightarrow> n)\<rparr>)"

text \<open>The text between the quote after the marker and the next single quote. The marker is
  not checked to be there: \<^verbatim>\<open>indexOf\<close> gives -1 for a missing marker and the arithmetic goes
  on from that.\<close>

definition extract_declaration :: "jstring \<Rightarrow> jstring \<Rightarrow> jstring" where
  "extract_declaration sHTMLContent sMarker =
     (let iJSONStartsAt = js_indexOf sHTMLContent sMarker 0 + int (length sMarker) + 1;
          iJSONEndsAt = js_indexOf sHTMLContent [39] iJSONStartsAt
      in js_substring sHTMLContent iJSONStartsAt iJSONEndsAt)"

definition sResourceRootMarker :: jstring where
  "sResourceRootMarker = str ''data-sap-ui-resourceroots=''"

definition sThemeRootMarker :: jstring where
  "sThemeRootMarker = str ''data-sap-ui-theme-roots=''"

text \<open>The two \<^verbatim>\<open>replace\<close> calls that write the new declarations into the document.\<close>

definition update_declarations :: "jstring \<Rightarrow> jstring \<Rightarrow> jstring \<Rightarrow> jstring" where
  "update_declarations sHTMLContent sStringifiedResourceRoots sStringifiedThemeRoots =
     replace_all (sThemeRootMarker @ [39])
       (sThemeRootMarker @ [39] @ sStringifiedThemeRoots @ [39]) []
       (replace_all (sResourceRootMarker @ [39])
          (sResourceRootMarker @ [39] @ sStringifiedResourceRoots @ [39]) [] sHTMLContent)"

text \<open>The run: the outcome (the updated file or the error thrown) and the file system as the
  run leaves it.\<close>

definition ui5Bust :: "platform \<Rightarrow> vinyl \<Rightarrow> options option \<Rightarrow> node \<Rightarrow> (error + vinyl) \<times> node" where
  "ui5Bust pf oHTMLFile oOptions fs =
     (case validated_options oOptions of
        Inl e \<Rightarrow> (Inl e, fs)
      | Inr oValidatedHashOptions \<Rightarrow>
     (let sHTMLContent = Buffer_toString (contents oHTMLFile) in
     (case JSON_parse pf (extract_declaration sHTMLContent sResourceRootMarker) of
        None \<Rightarrow> (Inl SyntaxError, fs)
      | Some oResouceRoots \<Rightarrow>
     (case Object_keys oResouceRoots of
        Inl e \<Rightarrow> (Inl e, fs)
      | Inr aModuleNames \<Rightarrow>
     (case reduce_entries (resource_root_entry pf oHTMLFile oValidatedHashOptions oResouceRoots)
             aModuleNames fs [] of
        (Inl e, fs1) \<Rightarrow> (Inl e, fs1)
      | (Inr oNewResouceRoots, fs1) \<Rightarrow>
     (case JSON_parse pf (extract_declaration sHTMLContent sThemeRootMarker) of
        None \<Rightarrow> (Inl SyntaxError, fs1)
      | Some oThemeRoots \<Rightarrow>
     (case Object_keys oThemeRoots of
        Inl e \<Rightarrow> (Inl e, fs1)
      | Inr aThemeNames \<Rightarrow>
     (case reduce_entries (theme_root_entry pf oHTMLFile oValidatedHashOptions oThemeRoots)
             aThemeNames fs1 [] of
        (Inl e, fs2) \<Rightarrow> (Inl e, fs2)
      | (Inr oNewThemeRoots, fs2) \<Rightarrow>
          (Inr (oHTMLFile\<lparr>contents :=
                  Buffer_from (update_declarations sHTMLContent
                     (JSON_stringify oNewResouceRoots) (JSON_stringify oNewThemeRoots))\<rparr>),
           fs2)))))))))"

subsection \<open>The files a manifest declares\<close>

text \<open>The hash input of an application in the words of the specification: the files that
  the \<^verbatim>\<open>uri\<close> entries under the resource categories of the manifest refer to, category by
  category. \<open>None\<close> where the manifest has not that shape: no \<^verbatim>\<open>sap.ui5\<close> object, a category
  that is no array, an entry without a \<^verbatim>\<open>uri\<close> string.\<close>

fun all_some :: "'a option list \<Rightarrow> 'a list option" where
  "all_some [] = Some []"
| "all_some (x # xs) =
     (case x of None \<Rightarrow> None
      | Some y \<Rightarrow> (case all_some xs of None \<Rightarrow> None | Some ys \<Rightarrow> Some (y # ys)))"

definition resource_uri :: "json \<Rightarrow> jstring option" where
  "resource_uri oResource =
     (case oResource of
        JNull \<Rightarrow> None
      | _ \<Rightarrow> (case map_of (own_properties oResource) (str ''uri'') of
                Some (JStr u) \<Rightarrow> Some u
              | _ \<Rightarrow> None))"

definition category_uris :: "json \<Rightarrow> jstring \<Rightarrow> jstring list option" where
  "category_uris resources sResourceKey =
     (case map_of (own_properties resources) sResourceKey of
        Some (JArr aResources) \<Rightarrow> all_some (map resource_uri aResources)
      | _ \<Rightarrow> None)"

definition manifest_uris :: "json \<Rightarrow> jstring list option" where
  "manifest_uris manifest =
     (case map_of (own_properties manifest) (str ''sap.ui5'') of
        None \<Rightarrow> None
      | Some JNull \<Rightarrow> None
      | Some ui5 \<Rightarrow>
          (case map_of (own_properties ui5) (str ''resources'') of
             None \<Rightarrow> Some []
           | Some resources \<Rightarrow>
               if truthy (Some resources)
               then map_option concat
                      (all_some (map (category_uris resources) (map fst (own_properties resources))))
               else Some []))"

subsection \<open>Well-formed strings\<close>

text \<open>A string is well-formed (\<^verbatim>\<open>String.prototype.isWellFormed\<close>) when every surrogate code
  unit is part of a pair. The text that \<^verbatim>\<open>readFileSync(path, 'utf8')\<close> returns is well-formed.\<close>

fun well_formed :: "jstring \<Rightarrow> bool" where
  "well_formed [] = True"
| "well_formed [u] = (u < 55296 \<or> (57344 \<le> u \<and> u < 65536))"
| "well_formed (u # v # us) =
     (if u < 55296 \<or> (57344 \<le> u \<and> u < 65536) then well_formed (v # us)
      else 55296 \<le> u \<and> u \<le> 56319 \<and> 56320 \<le> v \<and> v \<le> 57343 \<and> well_formed us)"

subsection \<open>A declaration that stands once in a document\<close>

text \<open>\<open>no_start opening xs rest\<close>: in the text \<open>xs @ rest\<close> no occurrence of \<open>opening\<close> starts
  within \<open>xs\<close>.\<close>

fun no_start :: "jstring \<Rightarrow> jstring \<Rightarrow> jstring \<Rightarrow> bool" where
  "no_start opening [] rest = True"
| "no_start opening (x # xs) rest =
     (take (length opening) (x # xs @ rest) \<noteq> opening \<and> no_start opening xs rest)"

text \<open>The text \<open>pre @ opening @ literal @ ' @ post\<close> holds the declaration once: the marker
  with its quote occurs nowhere else, the literal is on one line and has no single quote,
  and no single quote follows the closing quote on its line.\<close>

definition declared_once :: "jstring \<Rightarrow> jstring \<Rightarrow> jstring \<Rightarrow> jstring \<Rightarrow> bool" where
  "declared_once opening pre literal post =
     (no_start opening pre (opening @ literal @ 39 # post) \<and>
      39 \<notin> set literal \<and> filter line_terminator literal = [] \<and>
      39 \<notin> set (takeWhile (\<lambda>c. \<not> line_terminator c) post) \<and>
      no_start opening post [])"

subsection \<open>Example inputs\<close>

text \<open>A platform for the examples. Its \<open>JSON_parse\<close> is \<^verbatim>\<open>JSON.parse\<close> on the texts the examples
  hand to it, and its digest is the letter H and the input, read as text and cut to
  \<^verbatim>\<open>maxLength\<close>.\<close>

definition example_platform :: platform where
  "example_platform =
     \<lparr>JSON_parse = map_of
        [(str ''{}'', JObj []),
         (str ''{\"m\":\"./a\"}'', JObj [(str ''m'', JStr (str ''./a''))]),
         (str ''{\<newline>\"m\":\"./a\"\<newline>}'', JObj [(str ''m'', JStr (str ''./a''))]),
         (str ''{\"t\":\"./t/UI5\"}'', JObj [(str ''t'', JStr (str ''./t/UI5''))]),
         (str ''{\"x\":1}'', JObj [(str ''x'', JNum True)]),
         (str ''{\"sap.ui5\":1}'', JObj [(str ''sap.ui5'', JNum True)]),
         (str ''{\"sap.ui5\":{\"resources\":{\"css\":[{\"uri\":\"s.css\"}]}}}'',
          JObj [(str ''sap.ui5'',
                 JObj [(str ''resources'',
                        JObj [(str ''css'', JArr [JObj [(str ''uri'', JStr (str ''s.css''))]])])])])],
      getHashDigest = (\<lambda>b t d n. take n (str ''H'' @ str b)),
      process_cwd = str ''/''\<rparr>"

definition example_options :: hash_options where
  "example_options = \<lparr>HASH_TYPE = str ''sha512'', DIGEST_TYPE = str ''base62'', MAX_LENGTH = 8\<rparr>"

text \<open>The bootstrap document \<^verbatim>\<open>/index.html\<close> with the two declarations on a line each.\<close>

definition example_file :: vinyl where
  "example_file =
     \<lparr>cwd = str ''/'', path = str ''/index.html'',
      contents = ''<script data-sap-ui-resourceroots='{\"m\":\"./a\"}' \<newline> data-sap-ui-theme-roots='{}' >''\<rparr>"

text \<open>A bootstrap document with both declarations and an \<^verbatim>\<open>id\<close> attribute on one line.\<close>

definition same_line_file :: vinyl where
  "same_line_file =
     \<lparr>cwd = str ''/'', path = str ''/index.html'',
      contents = ''<script data-sap-ui-resourceroots='{}' id='x' data-sap-ui-theme-roots='{}' >''\<rparr>"

text \<open>A bootstrap document whose resource-root declaration runs over three lines.\<close>

definition multi_line_file :: vinyl where
  "multi_line_file =
     \<lparr>cwd = str ''/'', path = str ''/index.html'',
      contents = ''<script data-sap-ui-resourceroots='{\<newline>\"m\":\"./a\"\<newline>}' \<newline> data-sap-ui-theme-roots='{}' >''\<rparr>"

text \<open>A module directory \<^verbatim>\<open>/a\<close> without any file, and one with both marker files.\<close>

definition empty_module_fs :: node where
  "empty_module_fs = Dir [(str ''a'', Dir [])]"

definition both_markers_fs :: node where
  "both_markers_fs =
     Dir [(str ''a'', Dir [(str ''Component-preload.js'', File ''app''),
                          (str ''library-preload.js'', File ''lib'')])]"

text \<open>An application with an empty preload file and no manifest.\<close>

definition empty_preload_fs :: node where
  "empty_preload_fs = Dir [(str ''a'', Dir [(str ''Component-preload.js'', File [])])]"

text \<open>An application whose manifest declares the style sheet \<^verbatim>\<open>s.css\<close>.\<close>

definition manifest_fs :: node where
  "manifest_fs =
     Dir [(str ''a'',
           Dir [(str ''Component-preload.js'', File ''app''),
                (str ''manifest.json'',
                 File ''{\"sap.ui5\":{\"resources\":{\"css\":[{\"uri\":\"s.css\"}]}}}''),
                (str ''s.css'', File ''css'')])]"

definition declaring_manifest :: json where
  "declaring_manifest =
     JObj [(str ''sap.ui5'',
            JObj [(str ''resources'',
                   JObj [(str ''css'', JArr [JObj [(str ''uri'', JStr (str ''s.css''))]])])])]"

text \<open>An application whose preload file is the single byte FF, which is no UTF-8.\<close>

definition ill_formed_preload_fs :: node where
  "ill_formed_preload_fs = Dir [(str ''a'', Dir [(str ''Component-preload.js'', File [CHR 0xFF])])]"

text \<open>A directory of assets with one file, and a bootstrap document that declares it and
  whose theme-root declaration is no JSON text.\<close>

definition assets_fs :: node where
  "assets_fs = Dir [(str ''a'', Dir [(str ''x'', File ''x'')])]"



text \<open>A directory with a style sheet, a text file and a subdirectory.\<close>

definition nested_fs :: node where
  "nested_fs =
     Dir [(str ''d'',
           Dir [(str ''a.css'', File ''A''),
                (str ''b.txt'', File ''B''),
                (str ''sub'', Dir [(str ''c.txt'', File ''C'')])])]"

text \<open>A bootstrap document that declares the theme root \<^verbatim>\<open>./t/UI5\<close>, and the declaration
  as \<^verbatim>\<open>JSON.parse\<close> reads it.\<close>

definition theme_file :: vinyl where
  "theme_file =
     \<lparr>cwd = str ''/'', path = str ''/index.html'',
      contents = ''<script data-sap-ui-resourceroots='{}' \<newline> data-sap-ui-theme-roots='{\"t\":\"./t/UI5\"}' >''\<rparr>"

definition theme_declaration :: json where
  "theme_declaration = JObj [(str ''t'', JStr (str ''./t/UI5''))]"

definition module_declaration :: json where
  "module_declaration = JObj [(str ''m'', JStr (str ''./a''))]"

text \<open>An application whose manifest is the JSON text \<^verbatim>\<open>{"x":1}\<close>.\<close>

definition bare_manifest_fs :: node where
  "bare_manifest_fs =
     Dir [(str ''a'', Dir [(str ''Component-preload.js'', File ''app''),
                          (str ''manifest.json'', File ''{\"x\":1}'')])]"

text \<open>An application whose manifest is the JSON text \<^verbatim>\<open>{"sap.ui5":1}\<close>, and one whose manifest
  file is empty.\<close>

definition numeric_ui5_fs :: node where
  "numeric_ui5_fs =
     Dir [(str ''a'', Dir [(str ''Component-preload.js'', File ''app''),
                          (str ''manifest.json'', File ''{\"sap.ui5\":1}'')])]"

definition empty_manifest_fs :: node where
  "empty_manifest_fs =
     Dir [(str ''a'', Dir [(str ''Component-preload.js'', File ''app''),
                          (str ''manifest.json'', File [])])]"

section \<open>Properties\<close>

subsection \<open>Splitting at the slash\<close>

lemma js_split_nonempty: "js_split sep s \<noteq> []"
  by (induction s) (auto split: list.splits)

lemma js_split_append:
  "js_split sep (a @ sep # b) = js_split sep a @ js_split sep b"
proof (induction a)
  case Nil
  then show ?case by simp
next
  case (Cons c a)
  then show ?case
    using js_split_nonempty [of sep a]
    by (cases "js_split sep a") auto
qed

lemma js_split_plain: "sep \<notin> set s \<Longrightarrow> js_split sep s = [s]"
  by (induction s) auto

subsection \<open>The content hasher\<close>

lemma Array_sort_sorted: "sorted (map Buffer_toString (Array_sort bs))"
  by (simp add: Array_sort_def)

lemma Array_sort_Nil_iff: "Array_sort bs = [] \<longleftrightarrow> bs = []"
  by (metis Array_sort_def length_sort length_0_conv)

lemma Array_sort_mset: "mset (Array_sort bs) = mset bs"
  by (simp add: Array_sort_def)

text \<open>Where distinct buffers have distinct strings, the sorted list is the same for every
  order of the input: the stable sort can only keep the order of equal buffers.\<close>

lemma Array_sort_permutation:
  assumes inj: "inj_on Buffer_toString (set bs)" and perm: "mset bs' = mset bs"
  shows "Array_sort bs' = Array_sort bs"
proof -
  have set_eq: "set bs' = set bs" using perm by (rule mset_eq_setD)
  have filt: "filter (\<lambda>x. Buffer_toString k = Buffer_toString x) xs = filter (\<lambda>x. k = x) xs"
    if "k \<in> set bs" "set xs = set bs" for k xs
    using that inj by (intro filter_cong refl) (auto dest: inj_onD)
  have "sort_key Buffer_toString bs = sort_key Buffer_toString bs'"
  proof (rule properties_for_sort_key)
    show "mset (sort_key Buffer_toString bs') = mset bs" using perm by simp
    show "sorted (map Buffer_toString (sort_key Buffer_toString bs'))" by simp
    fix k assume "k \<in> set (sort_key Buffer_toString bs')"
    then have k: "k \<in> set bs" using set_eq by simp
    have "filter (\<lambda>x. Buffer_toString k = Buffer_toString x) (sort_key Buffer_toString bs')
          = filter (\<lambda>x. Buffer_toString k = Buffer_toString x) bs'"
      using sort_key_stable [of Buffer_toString "Buffer_toString k" bs']
      by (simp add: eq_commute)
    also have "\<dots> = filter (\<lambda>x. k = x) bs'" using filt [OF k set_eq] .
    also have "\<dots> = replicate (count (mset bs') k) k"
      by (simp add: replicate_count_mset_eq_filter_eq)
    also have "\<dots> = filter (\<lambda>x. k = x) bs" using perm
      by (simp add: replicate_count_mset_eq_filter_eq)
    also have "\<dots> = filter (\<lambda>x. Buffer_toString k = Buffer_toString x) bs"
      using filt [OF k refl] by simp
    finally show "filter (\<lambda>x. Buffer_toString k = Buffer_toString x) (sort_key Buffer_toString bs')
          = filter (\<lambda>x. Buffer_toString k = Buffer_toString x) bs" .
  qed
  then show ?thesis by (simp add: Array_sort_def)
qed

text \<open>Buffers of ASCII bytes are their own renderings, so distinct ASCII buffers have
  distinct renderings.\<close>

lemma utf8_decode_ascii:
  "\<forall>b\<in>set bs. b < 128 \<Longrightarrow> utf8_decode 0 0 128 191 bs = bs"
  by (induction bs) auto

lemma Buffer_toString_ascii:
  "\<forall>c\<in>set b. (of_char c :: nat) < 128 \<Longrightarrow> Buffer_toString b = map of_char b"
  by (simp add: Buffer_toString_def utf8_decode_ascii)

lemma Buffer_toString_ascii_inj:
  assumes "\<forall>b\<in>set bs. \<forall>c\<in>set b. (of_char c :: nat) < 128"
  shows "inj_on Buffer_toString (set bs)"
proof (rule inj_onI)
  fix x y assume "x \<in> set bs" "y \<in> set bs" "Buffer_toString x = Buffer_toString y"
  then have "map (of_char :: char \<Rightarrow> nat) x = map of_char y"
    using assms by (simp add: Buffer_toString_ascii)
  then show "x = y" by (simp add: inj_map_eq_map inj_on_def)
qed

text \<open>Decoding undoes encoding on well-formed strings: the buffers that the program makes
  with \<^verbatim>\<open>Buffer.from\<close> render as the strings they were made from, so distinct ones have
  distinct renderings and their hash does not depend on their order.\<close>


lemma add_mult_mod: "r < n \<Longrightarrow> (n * k + r) mod n = (r::nat)"
  by simp

lemma div64_div64: "(u::nat) div 4096 = u div 64 div 64"
proof -
  have "u div 4096 = u div (64 * 64)" by simp
  then show ?thesis by (simp only: div_mult2_eq)
qed

lemma div64_3: "(u::nat) div 262144 = u div 64 div 64 div 64"
proof -
  have "u div 262144 = u div (64 * (64 * 64))" by simp
  then show ?thesis by (simp only: div_mult2_eq)
qed

lemma start_one: "b \<le> 127 \<Longrightarrow> utf8_decode 0 0 128 191 (b # bs) = b # utf8_decode 0 0 128 191 bs"
  by simp

lemma start_two:
  "194 \<le> b \<Longrightarrow> b \<le> 223 \<Longrightarrow>
   utf8_decode 0 0 128 191 (b # bs) = utf8_decode (b mod 32) 1 128 191 bs"
  by simp

lemma start_three:
  "224 \<le> b \<Longrightarrow> b \<le> 239 \<Longrightarrow>
   utf8_decode 0 0 128 191 (b # bs) =
     utf8_decode (b mod 16) 2 (if b = 224 then 160 else 128) (if b = 237 then 159 else 191) bs"
  by simp

lemma start_four:
  "240 \<le> b \<Longrightarrow> b \<le> 244 \<Longrightarrow>
   utf8_decode 0 0 128 191 (b # bs) =
     utf8_decode (b mod 8) 3 (if b = 240 then 144 else 128) (if b = 244 then 143 else 191) bs"
  by simp

lemma continue_last:
  "lo \<le> b \<Longrightarrow> b \<le> hi \<Longrightarrow>
   utf8_decode cp (Suc 0) lo hi (b # bs) = utf16_units (cp * 64 + b mod 64) @ utf8_decode 0 0 128 191 bs"
  by simp

lemma continue_more:
  "lo \<le> b \<Longrightarrow> b \<le> hi \<Longrightarrow>
   utf8_decode cp (Suc (Suc n)) lo hi (b # bs) = utf8_decode (cp * 64 + b mod 64) (Suc n) 128 191 bs"
  by simp

lemma cont_byte: "128 \<le> 128 + (x::nat) mod 64" "128 + (x::nat) mod 64 \<le> 191" "(128 + (x::nat) mod 64) mod 64 = x mod 64"
proof -
  show "128 \<le> 128 + x mod 64" by simp
  have "x mod 64 < 64" by simp
  then show "128 + x mod 64 \<le> 191" by linarith
  have "(64 * 2 + x mod 64) mod 64 = x mod 64" by (rule add_mult_mod) simp
  then show "(128 + x mod 64) mod 64 = x mod 64" by simp
qed

lemma decode_two:
  assumes "128 \<le> u" "u < 2048"
  shows "utf8_decode 0 0 128 191 ((192 + u div 64) # (128 + u mod 64) # bs)
         = u # utf8_decode 0 0 128 191 bs"
proof -
  have d: "2 \<le> u div 64" "u div 64 < 32" using assms by linarith+
  have lead: "194 \<le> 192 + u div 64" "192 + u div 64 \<le> 223" using d by linarith+
  have "(32 * 6 + u div 64) mod 32 = u div 64" using d by (intro add_mult_mod)
  then have low: "(192 + u div 64) mod 32 = u div 64" by simp
  show ?thesis
    using assms
    by (simp only: start_two [OF lead] low One_nat_def continue_last [OF cont_byte(1,2)] cont_byte(3))
       (simp add: utf16_units_def)
qed


lemma decode_three:
  assumes "2048 \<le> u" "u < 65536" "\<not> (55296 \<le> u \<and> u \<le> 57343)"
  shows "utf8_decode 0 0 128 191
           ((224 + u div 4096) # (128 + u div 64 mod 64) # (128 + u mod 64) # bs)
         = u # utf8_decode 0 0 128 191 bs"
proof -
  have d: "u div 4096 < 16" using assms by linarith
  have lead: "224 \<le> 224 + u div 4096" "224 + u div 4096 \<le> 239" using d by linarith+
  have "(16 * 14 + u div 4096) mod 16 = u div 4096" using d by (intro add_mult_mod)
  then have low: "(224 + u div 4096) mod 16 = u div 4096" by simp
  have lo: "(if 224 + u div 4096 = 224 then 160 else 128) \<le> 128 + u div 64 mod 64"
  proof (cases "u div 4096 = 0")
    case True
    then have "u < 4096" by linarith
    then have "32 \<le> u div 64" "u div 64 < 64" using assms by linarith+
    then show ?thesis by simp
  next
    case False
    then show ?thesis by simp
  qed
  have hi: "128 + u div 64 mod 64 \<le> (if 224 + u div 4096 = 237 then 159 else 191)"
  proof (cases "u div 4096 = 13")
    case True
    then have "53248 \<le> u" "u < 55296" using assms by linarith+
    then have "832 \<le> u div 64" "u div 64 < 864" by linarith+
    then have x: "u div 64 = 64 * 13 + (u div 64 - 832)" "u div 64 - 832 < 64" by linarith+
    have "(64 * 13 + (u div 64 - 832)) mod 64 = u div 64 - 832"
      using x(2) by (rule add_mult_mod)
    then have "u div 64 mod 64 = u div 64 - 832" using x(1) by simp
    then show ?thesis using True \<open>u div 64 < 864\<close> by simp
  next
    case False
    then show ?thesis using cont_byte(2) [of "u div 64"] by simp
  qed
  have second: "u div 4096 * 64 + u div 64 mod 64 = u div 64"
    by (simp add: div64_div64)
  have third: "u div 64 * 64 + u mod 64 = u" by simp
  show ?thesis
    using assms
    by (simp only: start_three [OF lead] low numeral_2_eq_2 continue_more [OF lo hi] cont_byte(3)
          second continue_last [OF cont_byte(1,2)] third)
       (simp add: utf16_units_def)
qed


lemma decode_four:
  assumes "65536 \<le> cp" "cp < 1114112"
  shows "utf8_decode 0 0 128 191
           ((240 + cp div 262144) # (128 + cp div 4096 mod 64) # (128 + cp div 64 mod 64)
              # (128 + cp mod 64) # bs)
         = utf16_units cp @ utf8_decode 0 0 128 191 bs"
proof -
  have d: "cp div 262144 < 5" using assms by linarith
  have lead: "240 \<le> 240 + cp div 262144" "240 + cp div 262144 \<le> 244" using d by linarith+
  have "(8 * 30 + cp div 262144) mod 8 = cp div 262144" using d by (intro add_mult_mod) simp
  then have low: "(240 + cp div 262144) mod 8 = cp div 262144" by simp
  have lo: "(if 240 + cp div 262144 = 240 then 144 else 128) \<le> 128 + cp div 4096 mod 64"
  proof (cases "cp div 262144 = 0")
    case True
    then have "cp < 262144" by linarith
    then have "16 \<le> cp div 4096" "cp div 4096 < 64" using assms by linarith+
    then show ?thesis by simp
  next
    case False
    then show ?thesis by simp
  qed
  have hi: "128 + cp div 4096 mod 64 \<le> (if 240 + cp div 262144 = 244 then 143 else 191)"
  proof (cases "cp div 262144 = 4")
    case True
    then have "1048576 \<le> cp" using assms by linarith
    then have "256 \<le> cp div 4096" "cp div 4096 < 272" using assms by linarith+
    then have x: "cp div 4096 = 64 * 4 + (cp div 4096 - 256)" "cp div 4096 - 256 < 64" by linarith+
    have "(64 * 4 + (cp div 4096 - 256)) mod 64 = cp div 4096 - 256"
      using x(2) by (rule add_mult_mod)
    then have "cp div 4096 mod 64 = cp div 4096 - 256" using x(1) by simp
    then show ?thesis using True \<open>cp div 4096 < 272\<close> by simp
  next
    case False
    then show ?thesis using cont_byte(2) [of "cp div 4096"] by simp
  qed
  have second: "cp div 262144 * 64 + cp div 4096 mod 64 = cp div 4096"
    by (simp add: div64_div64 div64_3)
  have third: "cp div 4096 * 64 + cp div 64 mod 64 = cp div 64"
    by (simp add: div64_div64)
  have fourth: "cp div 64 * 64 + cp mod 64 = cp" by simp
  show ?thesis
    by (simp only: start_four [OF lead] low numeral_3_eq_3 continue_more [OF lo hi] cont_byte(3)
          second continue_more [OF cont_byte(1,2)] third continue_last [OF cont_byte(1,2)] fourth)
qed

lemma surrogate_pair_units:
  assumes "55296 \<le> u" "u \<le> 56319" "56320 \<le> v" "v \<le> 57343"
  shows "utf16_units (65536 + (u - 55296) * 1024 + (v - 56320)) = [u, v]"
proof -
  have "(1024 * (u - 55296) + (v - 56320)) mod 1024 = v - 56320"
    using assms by (intro add_mult_mod) linarith
  moreover have "(1024 * (u - 55296) + (v - 56320)) div 1024 = u - 55296"
    using assms by simp
  ultimately show ?thesis using assms by (simp add: utf16_units_def mult.commute)
qed

lemma decode_encode_unit:
  assumes "u < 55296 \<or> (57344 \<le> u \<and> u < 65536)"
  shows "utf8_decode 0 0 128 191 (utf8_encode (u # us)) = u # utf8_decode 0 0 128 191 (utf8_encode us)"
proof -
  from assms consider "u < 128" | "128 \<le> u" "u < 2048"
    | "2048 \<le> u" "u < 65536" "\<not> (55296 \<le> u \<and> u \<le> 57343)"
    by fastforce
  then show ?thesis
  proof cases
    case 1
    then have "utf8_encode (u # us) = u # utf8_encode us" by simp
    then show ?thesis using start_one [of u "utf8_encode us"] 1
      by (simp del: utf8_decode.simps utf8_encode.simps)
  next
    case 2
    then have "utf8_encode (u # us) = (192 + u div 64) # (128 + u mod 64) # utf8_encode us" by simp
    then show ?thesis using decode_two [OF 2, of "utf8_encode us"]
      by (simp del: utf8_decode.simps utf8_encode.simps)
  next
    case 3
    then have "utf8_encode (u # us) =
        (224 + u div 4096) # (128 + u div 64 mod 64) # (128 + u mod 64) # utf8_encode us"
      by auto
    then show ?thesis using decode_three [OF 3, of "utf8_encode us"]
      by (simp del: utf8_decode.simps utf8_encode.simps)
  qed
qed

lemma decode_encode_pair:
  assumes "55296 \<le> u" "u \<le> 56319" "56320 \<le> v" "v \<le> 57343"
  shows "utf8_decode 0 0 128 191 (utf8_encode (u # v # us))
         = u # v # utf8_decode 0 0 128 191 (utf8_encode us)"
proof -
  define cp where "cp = 65536 + (u - 55296) * 1024 + (v - 56320)"
  have range: "65536 \<le> cp" "cp < 1114112" using assms by (simp_all add: cp_def)
  have enc: "utf8_encode (u # v # us) =
     (240 + cp div 262144) # (128 + cp div 4096 mod 64) # (128 + cp div 64 mod 64)
       # (128 + cp mod 64) # utf8_encode us"
    using assms by (simp add: cp_def Let_def)
  have "utf16_units cp = [u, v]" using surrogate_pair_units [OF assms] by (simp add: cp_def)
  then show ?thesis
    unfolding enc using decode_four [OF range, of "utf8_encode us"] by simp
qed

lemma decode_encode:
  "well_formed s \<Longrightarrow> utf8_decode 0 0 128 191 (utf8_encode s) = s"
proof (induction s rule: well_formed.induct)
  case 1
  then show ?case by simp
next
  case (2 u)
  then show ?case using decode_encode_unit [of u "[]"] by (simp del: utf8_encode.simps add: utf8_encode.simps(1))
next
  case (3 u v us)
  show ?case
  proof (cases "u < 55296 \<or> (57344 \<le> u \<and> u < 65536)")
    case True
    then show ?thesis using 3 decode_encode_unit [OF True, of "v # us"] by simp
  next
    case False
    then have pair: "55296 \<le> u" "u \<le> 56319" "56320 \<le> v" "v \<le> 57343" and wf: "well_formed us"
      using 3(3) by auto
    show ?thesis using 3(2) False wf pair decode_encode_pair [OF pair, of us] by simp
  qed
qed


lemma cont_byte_small: "128 + (x::nat) mod 64 < 256"
  using cont_byte(2) [of x] by linarith

lemma encode_unit_bytes:
  assumes "u < 55296 \<or> (57344 \<le> u \<and> u < 65536)"
  shows "\<exists>bs. utf8_encode (u # us) = bs @ utf8_encode us \<and> (\<forall>b\<in>set bs. b < 256)"
proof -
  from assms consider "u < 128" | "128 \<le> u" "u < 2048"
    | "2048 \<le> u" "u < 65536" "\<not> (55296 \<le> u \<and> u \<le> 57343)"
    by fastforce
  then show ?thesis
  proof cases
    case 1
    then have "utf8_encode (u # us) = [u] @ utf8_encode us" by simp
    then show ?thesis using 1 by (intro exI [of _ "[u]"]) simp
  next
    case 2
    then have "utf8_encode (u # us) = [192 + u div 64, 128 + u mod 64] @ utf8_encode us" by simp
    moreover have "192 + u div 64 < 256" using 2 by linarith
    ultimately show ?thesis using cont_byte_small
      by (intro exI [of _ "[192 + u div 64, 128 + u mod 64]"]) simp
  next
    case 3
    then have "utf8_encode (u # us) =
        [224 + u div 4096, 128 + u div 64 mod 64, 128 + u mod 64] @ utf8_encode us"
      by auto
    moreover have "224 + u div 4096 < 256" using 3 by linarith
    ultimately show ?thesis using cont_byte_small
      by (intro exI [of _ "[224 + u div 4096, 128 + u div 64 mod 64, 128 + u mod 64]"]) simp
  qed
qed

lemma encode_pair_bytes:
  assumes "55296 \<le> u" "u \<le> 56319" "56320 \<le> v" "v \<le> 57343"
  shows "\<exists>bs. utf8_encode (u # v # us) = bs @ utf8_encode us \<and> (\<forall>b\<in>set bs. b < 256)"
proof -
  define cp where "cp = 65536 + (u - 55296) * 1024 + (v - 56320)"
  have range: "65536 \<le> cp" "cp < 1114112" using assms by (simp_all add: cp_def)
  have enc: "utf8_encode (u # v # us) =
     [240 + cp div 262144, 128 + cp div 4096 mod 64, 128 + cp div 64 mod 64, 128 + cp mod 64]
       @ utf8_encode us"
    using assms by (simp add: cp_def Let_def)
  have "240 + cp div 262144 < 256" using range by linarith
  then show ?thesis using enc cont_byte_small
    by (intro exI [of _ "[240 + cp div 262144, 128 + cp div 4096 mod 64, 128 + cp div 64 mod 64,
          128 + cp mod 64]"]) simp
qed

lemma utf8_encode_bytes: "well_formed s \<Longrightarrow> \<forall>b\<in>set (utf8_encode s). b < 256"
proof (induction s rule: well_formed.induct)
  case 1
  then show ?case by simp
next
  case (2 u)
  then obtain bs where "utf8_encode [u] = bs @ utf8_encode []" "\<forall>b\<in>set bs. b < 256"
    using encode_unit_bytes [of u "[]"] by auto
  then show ?case by simp
next
  case (3 u v us)
  show ?case
  proof (cases "u < 55296 \<or> (57344 \<le> u \<and> u < 65536)")
    case True
    then obtain bs where "utf8_encode (u # v # us) = bs @ utf8_encode (v # us)" "\<forall>b\<in>set bs. b < 256"
      using encode_unit_bytes [of u "v # us"] by auto
    then show ?thesis using 3 True by (auto simp del: utf8_encode.simps)
  next
    case False
    then have pair: "55296 \<le> u" "u \<le> 56319" "56320 \<le> v" "v \<le> 57343" and wf: "well_formed us"
      using 3(3) by auto
    obtain bs where "utf8_encode (u # v # us) = bs @ utf8_encode us" "\<forall>b\<in>set bs. b < 256"
      using encode_pair_bytes [OF pair, of us] by auto
    then show ?thesis using 3(2) False wf pair by (auto simp del: utf8_encode.simps)
  qed
qed

lemma bytes_as_chars: "\<forall>b\<in>set bs. b < 256 \<Longrightarrow> map of_char (map char_of bs) = (bs::nat list)"
  by (induction bs) (simp_all add: )

lemma Buffer_toString_from:
  assumes "well_formed s"
  shows "Buffer_toString (Buffer_from s) = s"
proof -
  have "map of_char (map char_of (utf8_encode s)) = utf8_encode s"
    using utf8_encode_bytes [OF assms] by (rule bytes_as_chars)
  then show ?thesis
    using decode_encode [OF assms] by (simp only: Buffer_toString_def Buffer_from_def)
qed

lemma createHash_of_strings:
  assumes "\<forall>s\<in>set contents1. well_formed s" and "mset contents2 = mset contents1"
  shows "createHash pf (Some (map Buffer_from contents2)) oOptions
         = createHash pf (Some (map Buffer_from contents1)) oOptions"
proof -
  have "inj_on Buffer_toString (set (map Buffer_from contents1))"
  proof (rule inj_onI)
    fix x y
    assume "x \<in> set (map Buffer_from contents1)" "y \<in> set (map Buffer_from contents1)"
      and same: "Buffer_toString x = Buffer_toString y"
    then obtain s t where "s \<in> set contents1" "t \<in> set contents1"
      and x: "x = Buffer_from s" and y: "y = Buffer_from t"
      by auto
    then have "Buffer_toString x = s" "Buffer_toString y = t"
      using assms(1) by (simp_all add: Buffer_toString_from)
    then show "x = y" using same x y by simp
  qed
  moreover have "mset (map Buffer_from contents2) = mset (map Buffer_from contents1)"
    using assms(2) by (metis mset_map)
  ultimately have "Array_sort (map Buffer_from contents2) = Array_sort (map Buffer_from contents1)"
    by (rule Array_sort_permutation)
  then show ?thesis by (simp add: createHash_def)
qed

text \<open>
  Claim C3, as amended. For every collection of buffers in which distinct buffers have
  distinct \<^verbatim>\<open>toString()\<close> renderings, and every permutation of that collection, the content
  hasher produces the same token on the permuted collection as on the original.
\<close>

theorem createHash_permutation:
  assumes "inj_on Buffer_toString (set aBufferList)" and "mset permuted = mset aBufferList"
  shows "createHash pf (Some permuted) oOptions = createHash pf (Some aBufferList) oOptions"
  using Array_sort_permutation [OF assms] by (simp add: createHash_def)

theorem createHash_permutation_witness:
  "inj_on Buffer_toString (set [''b'', ''a'', ''b'']) \<and>
   mset [''a'', ''b'', ''b''] = mset [''b'', ''a'', ''b''] \<and>
   createHash example_platform (Some [''a'', ''b'', ''b'']) example_options
     = createHash example_platform (Some [''b'', ''a'', ''b'']) example_options"
proof -
  have inj: "inj_on Buffer_toString (set [''b'', ''a'', ''b''])"
    by (auto simp: Buffer_toString_def)
  have perm: "mset [''a'', ''b'', ''b''] = mset [''b'', ''a'', ''b'']" by simp
  show ?thesis using inj perm createHash_permutation [OF inj perm] by blast
qed

text \<open>
  Claim C3 as it is written fails: the bytes FF and FE are both ill-formed UTF-8, the two
  one-byte buffers have the same rendering U+FFFD, the sort leaves them in the order they
  came in, and the two orders are hashed to different tokens.
\<close>

theorem createHash_permutation_counterexample:
  "mset [[CHR 0xFE], [CHR 0xFF]] = mset [[CHR 0xFF], [CHR 0xFE]] \<and>
   createHash example_platform (Some [[CHR 0xFF], [CHR 0xFE]]) example_options = Some [104, 255, 254] \<and>
   createHash example_platform (Some [[CHR 0xFE], [CHR 0xFF]]) example_options = Some [104, 254, 255]"
  by (simp add: createHash_def Array_sort_def Buffer_toString_def example_platform_def
      example_options_def Buffer_concat_def js_toLowerCase_def lower_unit_def str_def)

lemma Array_sort_stable:
  "filter (\<lambda>b. Buffer_toString b = s) (Array_sort bs) = filter (\<lambda>b. Buffer_toString b = s) bs"
  by (simp add: Array_sort_def sort_key_stable)

lemma Array_sort_unique:
  assumes "mset aSorted = mset bs"
    and "sorted (map Buffer_toString aSorted)"
    and "\<forall>s. filter (\<lambda>b. Buffer_toString b = s) aSorted = filter (\<lambda>b. Buffer_toString b = s) bs"
  shows "aSorted = Array_sort bs"
proof -
  have "filter (\<lambda>x. Buffer_toString k = Buffer_toString x) aSorted
        = filter (\<lambda>x. Buffer_toString k = Buffer_toString x) bs" for k
    using assms(3) by (simp add: eq_commute [of "Buffer_toString k"])
  then have "sort_key Buffer_toString bs = aSorted"
    using assms(1,2) by (intro properties_for_sort_key) auto
  then show ?thesis by (simp add: Array_sort_def)
qed

text \<open>
  Claim C9, as amended. The content hasher returns \<^verbatim>\<open>null\<close> exactly when its buffer collection
  is empty (a missing collection counts as empty), never a hash of the empty byte string;
  for a non-empty collection it returns the digest, taken with the given algorithm, encoding
  and maximal length, of the concatenation of the sorted buffers, in lower case. The sorted
  list is the one arrangement of the collection that ascends in the \<^verbatim>\<open>toString()\<close> renderings
  of the buffers and keeps buffers of the same rendering in the order they came in.
\<close>

theorem createHash_result:
  "(createHash pf (Some aBufferList) oOptions = None \<longleftrightarrow> aBufferList = []) \<and>
   createHash pf None oOptions = None \<and>
   (aBufferList \<noteq> [] \<longrightarrow>
      createHash pf (Some aBufferList) oOptions =
        Some (js_toLowerCase (getHashDigest pf (Buffer_concat (Array_sort aBufferList))
                (HASH_TYPE oOptions) (DIGEST_TYPE oOptions) (MAX_LENGTH oOptions)))) \<and>
   mset (Array_sort aBufferList) = mset aBufferList \<and>
   sorted (map Buffer_toString (Array_sort aBufferList)) \<and>
   (\<forall>s. filter (\<lambda>b. Buffer_toString b = s) (Array_sort aBufferList)
          = filter (\<lambda>b. Buffer_toString b = s) aBufferList) \<and>
   (\<forall>aSorted.
      mset aSorted = mset aBufferList \<and> sorted (map Buffer_toString aSorted) \<and>
      (\<forall>s. filter (\<lambda>b. Buffer_toString b = s) aSorted
             = filter (\<lambda>b. Buffer_toString b = s) aBufferList)
      \<longrightarrow> aSorted = Array_sort aBufferList)"
proof (intro conjI allI impI)
  show "(createHash pf (Some aBufferList) oOptions = None) = (aBufferList = [])"
    by (simp add: createHash_def Let_def Array_sort_Nil_iff)
  show "createHash pf None oOptions = None"
    by (simp add: createHash_def Array_sort_def)
  show "createHash pf (Some aBufferList) oOptions =
        Some (js_toLowerCase (getHashDigest pf (Buffer_concat (Array_sort aBufferList))
                (HASH_TYPE oOptions) (DIGEST_TYPE oOptions) (MAX_LENGTH oOptions)))"
    if "aBufferList \<noteq> []"
    using that by (simp add: createHash_def Let_def Array_sort_Nil_iff)
  show "mset (Array_sort aBufferList) = mset aBufferList"
    by (rule Array_sort_mset)
  show "sorted (map Buffer_toString (Array_sort aBufferList))"
    by (rule Array_sort_sorted)
  show "filter (\<lambda>b. Buffer_toString b = s) (Array_sort aBufferList)
          = filter (\<lambda>b. Buffer_toString b = s) aBufferList" for s
    by (rule Array_sort_stable)
  show "aSorted = Array_sort aBufferList"
    if "mset aSorted = mset aBufferList \<and> sorted (map Buffer_toString aSorted) \<and>
      (\<forall>s. filter (\<lambda>b. Buffer_toString b = s) aSorted
             = filter (\<lambda>b. Buffer_toString b = s) aBufferList)" for aSorted
    using that by (intro Array_sort_unique) simp_all
qed

theorem createHash_result_witness:
  "[''B'', ''A''] \<noteq> [] \<and>
   mset [''A'', ''B''] = mset [''B'', ''A''] \<and>
   sorted (map Buffer_toString [''A'', ''B'']) \<and>
   (\<forall>s. filter (\<lambda>b. Buffer_toString b = s) [''A'', ''B'']
          = filter (\<lambda>b. Buffer_toString b = s) [''B'', ''A'']) \<and>
   Array_sort [''B'', ''A''] = [''A'', ''B''] \<and>
   createHash example_platform (Some [''B'', ''A'']) example_options = Some (str ''hab'')"
proof -
  have perm: "mset [''A'', ''B''] = mset [''B'', ''A'']" by simp
  have rendering: "Buffer_toString ''A'' = [65]" "Buffer_toString ''B'' = [66]"
    by code_simp+
  have asc: "sorted (map Buffer_toString [''A'', ''B''])"
    by (simp add: rendering)
  have stable: "\<forall>s. filter (\<lambda>b. Buffer_toString b = s) [''A'', ''B'']
          = filter (\<lambda>b. Buffer_toString b = s) [''B'', ''A'']"
    by (auto simp: rendering)
  note result = createHash_result [of example_platform "[''B'', ''A'']" example_options]
  have order: "Array_sort [''B'', ''A''] = [''A'', ''B'']"
    using result perm asc stable by metis
  have "createHash example_platform (Some [''B'', ''A'']) example_options =
        Some (js_toLowerCase (getHashDigest example_platform (Buffer_concat (Array_sort [''B'', ''A'']))
                (HASH_TYPE example_options) (DIGEST_TYPE example_options) (MAX_LENGTH example_options)))"
    using result by simp
  also have "\<dots> = Some (str ''hab'')"
    unfolding order
    by (simp add: example_platform_def example_options_def Buffer_concat_def js_toLowerCase_def
        lower_unit_def str_def)
  finally show ?thesis using perm asc stable order by simp
qed

text \<open>
  Claim C9 as it is written fails: the sorted order is not canonical. The bytes 80 and 81
  are both ill-formed UTF-8 and render as U+FFFD, so the two one-byte buffers stay in the
  order they came in, and the same collection has two tokens. Nor is the order that of the
  bytes: of the buffers of U+FF5E (bytes EF BD 9E) and U+10000 (bytes F0 90 80 80) the
  second comes first, as its rendering begins with the code unit D800.
\<close>

theorem createHash_result_counterexample:
  "mset [[CHR 0x81], [CHR 0x80]] = mset [[CHR 0x80], [CHR 0x81]] \<and>
   createHash example_platform (Some [[CHR 0x80], [CHR 0x81]]) example_options = Some [104, 128, 129] \<and>
   createHash example_platform (Some [[CHR 0x81], [CHR 0x80]]) example_options = Some [104, 129, 128] \<and>
   Buffer_from [65374] = [CHR 0xEF, CHR 0xBD, CHR 0x9E] \<and>
   Buffer_from [55296, 56320] = [CHR 0xF0, CHR 0x90, CHR 0x80, CHR 0x80] \<and>
   Array_sort [[CHR 0xEF, CHR 0xBD, CHR 0x9E], [CHR 0xF0, CHR 0x90, CHR 0x80, CHR 0x80]]
     = [[CHR 0xF0, CHR 0x90, CHR 0x80, CHR 0x80], [CHR 0xEF, CHR 0xBD, CHR 0x9E]]"
  by code_simp

subsection \<open>The kinds of module\<close>

lemma or_null_defined: "or_null t \<noteq> Undefined"
  by (simp add: or_null_def split: option.splits list.splits)

lemma bindE_or_null_defined: "bindE m (\<lambda>t. Inr (or_null t)) \<noteq> Inr Undefined"
  by (simp add: bindE_def or_null_defined split: sum.splits)

text \<open>
  Claim C8. A module directory is treated as exactly one kind: as an application when the
  marker \<^verbatim>\<open>Component-preload.js\<close> exists, also when \<^verbatim>\<open>library-preload.js\<close> exists beside it;
  as a library when only \<^verbatim>\<open>library-preload.js\<close> exists; as a directory of assets
  otherwise. The three cases exclude each other and leave no fourth: the function that
  chooses the strategy never falls through to \<^verbatim>\<open>undefined\<close>.
\<close>

theorem module_classification:
  "isUi5App pf fs sResolvedModulePath =
     existsSync fs (path_resolve pf [sResolvedModulePath, str ''Component-preload.js'']) \<and>
   isUi5Lib pf fs sResolvedModulePath =
     existsSync fs (path_resolve pf [sResolvedModulePath, str ''library-preload.js'']) \<and>
   (isUi5App pf fs sResolvedModulePath \<longrightarrow>
      module_hash pf fs sResolvedModulePath oOptions =
        bindE (getUi5AppHash pf fs sResolvedModulePath (preload_path pf sResolvedModulePath) oOptions)
          (\<lambda>t. Inr (or_null t))) \<and>
   (\<not> isUi5App pf fs sResolvedModulePath \<and> isUi5Lib pf fs sResolvedModulePath \<longrightarrow>
      module_hash pf fs sResolvedModulePath oOptions =
        bindE (getUi5LibHash pf fs sResolvedModulePath (lib_preload_path pf sResolvedModulePath) oOptions)
          (\<lambda>t. Inr (or_null t))) \<and>
   (\<not> isUi5App pf fs sResolvedModulePath \<and> \<not> isUi5Lib pf fs sResolvedModulePath \<longrightarrow>
      isAssetsDir pf fs sResolvedModulePath \<and>
      module_hash pf fs sResolvedModulePath oOptions =
        bindE (getAssetsHash pf fs sResolvedModulePath oOptions) (\<lambda>t. Inr (or_null t))) \<and>
   (isAssetsDir pf fs sResolvedModulePath \<longrightarrow>
      \<not> isUi5App pf fs sResolvedModulePath \<and> \<not> isUi5Lib pf fs sResolvedModulePath) \<and>
   module_hash pf fs sResolvedModulePath oOptions \<noteq> Inr Undefined"
  by (simp add: module_hash_def isAssetsDir_def isUi5App_def isUi5Lib_def preload_path_def
      lib_preload_path_def bindE_or_null_defined)

theorem module_classification_witness:
  "isUi5App example_platform both_markers_fs (str ''/a'') \<and>
   isUi5Lib example_platform both_markers_fs (str ''/a'') \<and>
   \<not> isAssetsDir example_platform both_markers_fs (str ''/a'') \<and>
   module_hash example_platform both_markers_fs (str ''/a'') example_options = Inr (Hash (str ''happ''))"
proof -
  have app: "isUi5App example_platform both_markers_fs (str ''/a'')" by code_simp
  have lib: "isUi5Lib example_platform both_markers_fs (str ''/a'')" by code_simp
  have "bindE (getUi5AppHash example_platform both_markers_fs (str ''/a'')
                 (preload_path example_platform (str ''/a'')) example_options)
          (\<lambda>t. Inr (or_null t)) = Inr (Hash (str ''happ''))"
    by code_simp
  then show ?thesis
    using app lib module_classification [of example_platform both_markers_fs "str ''/a''" example_options]
    by auto
qed

subsection \<open>The hash input of an application\<close>

lemma js_get_Some:
  "js_get (Some j) k = (if j = JNull then Inl TypeError else Inr (map_of (own_properties j) k))"
  by (cases j) (simp_all add: js_get_def)

lemma js_get_None: "js_get None k = Inl TypeError"
  by (simp add: js_get_def)

text \<open>
  Claim C10, as amended. For an application whose \<^verbatim>\<open>manifest.json\<close> exists, is not empty and
  parses to a value that has no top-level \<^verbatim>\<open>sap.ui5\<close> member, or has \<^verbatim>\<open>null\<close> there, the
  application hash strategy throws: once the preload file has been read, a TypeError (the
  read of \<^verbatim>\<open>.resources\<close> on \<^verbatim>\<open>undefined\<close> or \<^verbatim>\<open>null\<close>); it does not take the manifest as one
  that declares no resources. Where the strategy returns for a manifest file that is not
  empty, the manifest has a \<^verbatim>\<open>sap.ui5\<close> member that is not \<^verbatim>\<open>null\<close>.
\<close>

theorem manifest_without_sap_ui5:
  assumes present: "existsSync fs (path_resolve pf [sResolvedModulePath, str ''manifest.json''])"
    and content: "readFileSync fs (path_resolve pf [sResolvedModulePath, str ''manifest.json'']) = Inr sManifest"
    and nonempty: "sManifest \<noteq> []"
    and parsed: "JSON_parse pf sManifest = Some manifest"
  shows "(map_of (own_properties manifest) (str ''sap.ui5'') = None \<or>
          map_of (own_properties manifest) (str ''sap.ui5'') = Some JNull \<longrightarrow>
            (\<exists>e. getUi5AppHash pf fs sResolvedModulePath sPreloadPath oOptions = Inl e) \<and>
            (\<forall>oPreloadFileContent. readFileSync fs sPreloadPath = Inr oPreloadFileContent \<longrightarrow>
               getUi5AppHash pf fs sResolvedModulePath sPreloadPath oOptions = Inl TypeError)) \<and>
         (\<forall>token. getUi5AppHash pf fs sResolvedModulePath sPreloadPath oOptions = Inr token \<longrightarrow>
            (\<exists>ui5. map_of (own_properties manifest) (str ''sap.ui5'') = Some ui5 \<and> ui5 \<noteq> JNull))"
proof -
  obtain c cs where shape: "sManifest = c # cs" using nonempty by (cases sManifest) auto
  have loaded: "oManifestJSON pf fs sResolvedModulePath = Inr manifest"
    using present content parsed by (simp add: oManifestJSON_def bindE_def shape)
  have fails: "getUi5AppHash pf fs sResolvedModulePath sPreloadPath oOptions = Inl TypeError"
    if "map_of (own_properties manifest) (str ''sap.ui5'') = None
        \<or> map_of (own_properties manifest) (str ''sap.ui5'') = Some JNull"
      and "readFileSync fs sPreloadPath = Inr oPreloadFileContent" for oPreloadFileContent
    using that loaded
    by (auto simp: getUi5AppHash_def Ui5App_aBufferList_def aDependedResourceContents_def
        js_get_Some js_get_None bindE_def)
  have throws: "\<exists>e. getUi5AppHash pf fs sResolvedModulePath sPreloadPath oOptions = Inl e"
    if "map_of (own_properties manifest) (str ''sap.ui5'') = None
        \<or> map_of (own_properties manifest) (str ''sap.ui5'') = Some JNull"
  proof (cases "readFileSync fs sPreloadPath")
    case (Inl e)
    then show ?thesis
      by (simp add: getUi5AppHash_def Ui5App_aBufferList_def bindE_def)
  next
    case (Inr oPreloadFileContent)
    then show ?thesis using fails that by blast
  qed
  have returns: "\<exists>oPreloadFileContent. readFileSync fs sPreloadPath = Inr oPreloadFileContent"
    if "getUi5AppHash pf fs sResolvedModulePath sPreloadPath oOptions = Inr token" for token
    using that
    by (cases "readFileSync fs sPreloadPath")
       (simp_all add: getUi5AppHash_def Ui5App_aBufferList_def bindE_def)
  show ?thesis
  proof (intro conjI allI impI)
    assume "map_of (own_properties manifest) (str ''sap.ui5'') = None \<or>
          map_of (own_properties manifest) (str ''sap.ui5'') = Some JNull"
    then show "\<exists>e. getUi5AppHash pf fs sResolvedModulePath sPreloadPath oOptions = Inl e"
      by (rule throws)
  next
    fix oPreloadFileContent
    assume "map_of (own_properties manifest) (str ''sap.ui5'') = None \<or>
          map_of (own_properties manifest) (str ''sap.ui5'') = Some JNull"
      and "readFileSync fs sPreloadPath = Inr oPreloadFileContent"
    then show "getUi5AppHash pf fs sResolvedModulePath sPreloadPath oOptions = Inl TypeError"
      by (rule fails)
  next
    fix token
    assume ok: "getUi5AppHash pf fs sResolvedModulePath sPreloadPath oOptions = Inr token"
    then obtain oPreloadFileContent where pre: "readFileSync fs sPreloadPath = Inr oPreloadFileContent"
      using returns by blast
    show "\<exists>ui5. map_of (own_properties manifest) (str ''sap.ui5'') = Some ui5 \<and> ui5 \<noteq> JNull"
    proof (cases "map_of (own_properties manifest) (str ''sap.ui5'')")
      case None
      then show ?thesis using fails [OF _ pre] ok by simp
    next
      case (Some ui5)
      then show ?thesis using fails [OF _ pre] ok by (cases "ui5 = JNull") simp_all
    qed
  qed
qed

theorem manifest_without_sap_ui5_witness:
  "existsSync bare_manifest_fs (path_resolve example_platform [str ''/a'', str ''manifest.json'']) \<and>
   readFileSync bare_manifest_fs (path_resolve example_platform [str ''/a'', str ''manifest.json''])
     = Inr (str ''{\"x\":1}'') \<and>
   str ''{\"x\":1}'' \<noteq> [] \<and>
   JSON_parse example_platform (str ''{\"x\":1}'') = Some (JObj [(str ''x'', JNum True)]) \<and>
   map_of (own_properties (JObj [(str ''x'', JNum True)])) (str ''sap.ui5'') = None \<and>
   readFileSync bare_manifest_fs (str ''/a/Component-preload.js'') = Inr (str ''app'') \<and>
   getUi5AppHash example_platform bare_manifest_fs (str ''/a'') (str ''/a/Component-preload.js'')
     example_options = Inl TypeError"
proof -
  have preload: "readFileSync bare_manifest_fs (str ''/a/Component-preload.js'') = Inr (str ''app'')"
    by code_simp
  have present: "existsSync bare_manifest_fs (path_resolve example_platform [str ''/a'', str ''manifest.json''])"
    by code_simp
  have content: "readFileSync bare_manifest_fs (path_resolve example_platform [str ''/a'', str ''manifest.json''])
     = Inr (str ''{\"x\":1}'')"
    by code_simp
  have nonempty: "str ''{\"x\":1}'' \<noteq> []" by code_simp
  have parsed: "JSON_parse example_platform (str ''{\"x\":1}'') = Some (JObj [(str ''x'', JNum True)])"
    by code_simp
  have absent: "map_of (own_properties (JObj [(str ''x'', JNum True)])) (str ''sap.ui5'') = None"
    by code_simp
  show ?thesis
    using manifest_without_sap_ui5 [OF present content nonempty parsed,
        of "str ''/a/Component-preload.js''" example_options]
      preload present content nonempty parsed absent by blast
qed

text \<open>
  Claim C10 as it is written fails where the manifest has a \<^verbatim>\<open>sap.ui5\<close> member that is no
  object, and where the manifest file is empty: for the manifest \<^verbatim>\<open>{"sap.ui5":1}\<close> the read
  of \<^verbatim>\<open>.resources\<close> on the number gives \<^verbatim>\<open>undefined\<close>, and an empty manifest file is not parsed
  at all; in both cases the strategy returns the token of the preload file alone.
\<close>

theorem manifest_without_sap_ui5_counterexample:
  "readFileSync numeric_ui5_fs (path_resolve example_platform [str ''/a'', str ''manifest.json''])
     = Inr (str ''{\"sap.ui5\":1}'') \<and>
   JSON_parse example_platform (str ''{\"sap.ui5\":1}'') = Some (JObj [(str ''sap.ui5'', JNum True)]) \<and>
   getUi5AppHash example_platform numeric_ui5_fs (str ''/a'') (str ''/a/Component-preload.js'')
     example_options = Inr (Some (str ''happ'')) \<and>
   existsSync empty_manifest_fs (path_resolve example_platform [str ''/a'', str ''manifest.json'']) \<and>
   readFileSync empty_manifest_fs (path_resolve example_platform [str ''/a'', str ''manifest.json''])
     = Inr [] \<and>
   getUi5AppHash example_platform empty_manifest_fs (str ''/a'') (str ''/a/Component-preload.js'')
     example_options = Inr (Some (str ''happ''))"
  by code_simp

lemma mapE_append:
  "mapE f (xs @ ys) = bindE (mapE f xs) (\<lambda>as. bindE (mapE f ys) (\<lambda>bs. Inr (as @ bs)))"
  by (induction xs) (auto simp: bindE_def split: sum.splits)

lemma read_resource_uri:
  assumes "resource_uri oResource = Some u"
  shows "read_resource pf fs dir oResource = readFileSync fs (path_resolve pf [dir, u])"
proof -
  have nonnull: "oResource \<noteq> JNull" using assms by (auto simp: resource_uri_def)
  have "map_of (own_properties oResource) (str ''uri'') = Some (JStr u)"
    using assms nonnull
    by (cases oResource) (auto simp: resource_uri_def split: option.splits json.splits)
  then show ?thesis using nonnull by (simp add: read_resource_def js_get_Some bindE_def)
qed

lemma read_resources_uris:
  "all_some (map resource_uri rs) = Some us \<Longrightarrow>
   mapE (read_resource pf fs dir) rs = mapE (\<lambda>u. readFileSync fs (path_resolve pf [dir, u])) us"
proof (induction rs arbitrary: us)
  case Nil
  then show ?case by simp
next
  case (Cons r rs)
  then obtain u us' where u: "resource_uri r = Some u" and us': "all_some (map resource_uri rs) = Some us'"
    and us: "us = u # us'"
    by (auto split: option.splits)
  show ?case using Cons.IH [OF us'] read_resource_uri [OF u] by (simp add: us)
qed

lemma read_category_uris:
  assumes "resources \<noteq> JNull" and "category_uris resources k = Some us"
  shows "read_category pf fs dir resources k = mapE (\<lambda>u. readFileSync fs (path_resolve pf [dir, u])) us"
proof -
  obtain rs where rs: "map_of (own_properties resources) k = Some (JArr rs)"
    and all: "all_some (map resource_uri rs) = Some us"
    using assms(2) by (auto simp: category_uris_def split: option.splits json.splits)
  show ?thesis using assms(1) rs read_resources_uris [OF all]
    by (simp add: read_category_def js_get_Some bindE_def)
qed

lemma read_categories_uris:
  assumes "resources \<noteq> JNull"
  shows "all_some (map (category_uris resources) ks) = Some uss \<Longrightarrow>
   concatMapE (read_category pf fs dir resources) ks acc =
     bindE (mapE (\<lambda>u. readFileSync fs (path_resolve pf [dir, u])) (concat uss)) (\<lambda>cs. Inr (acc @ cs))"
proof (induction ks arbitrary: uss acc)
  case Nil
  then show ?case by (simp add: bindE_def)
next
  case (Cons k ks)
  then obtain us uss' where us: "category_uris resources k = Some us"
    and uss': "all_some (map (category_uris resources) ks) = Some uss'" and uss: "uss = us # uss'"
    by (auto split: option.splits)
  show ?case
    using Cons.IH [OF uss'] read_category_uris [OF assms us]
    by (auto simp: uss mapE_append bindE_def split: sum.splits)
qed

lemma truthy_nonnull: "truthy (Some j) \<Longrightarrow> j \<noteq> JNull"
  by auto

lemma manifest_uris_unfold:
  assumes "map_of (own_properties manifest) (str ''sap.ui5'') = Some ui5" and "ui5 \<noteq> JNull"
  shows "manifest_uris manifest =
     (case map_of (own_properties ui5) (str ''resources'') of
        None \<Rightarrow> Some []
      | Some resources \<Rightarrow>
          if truthy (Some resources)
          then map_option concat
                 (all_some (map (category_uris resources) (map fst (own_properties resources))))
          else Some [])"
  using assms by (cases ui5) (simp_all add: manifest_uris_def del: own_properties.simps)

text \<open>The loop over the resource categories reads the files that the manifest declares, in
  the order of the declaration.\<close>

lemma depended_contents_uris:
  assumes "manifest_uris manifest = Some uris"
  shows "aDependedResourceContents pf fs dir manifest =
           mapE (\<lambda>u. readFileSync fs (path_resolve pf [dir, u])) uris"
proof -
  obtain ui5 where ui5: "map_of (own_properties manifest) (str ''sap.ui5'') = Some ui5"
    and ui5_nonnull: "ui5 \<noteq> JNull"
    using assms by (auto simp: manifest_uris_def split: option.splits json.splits)
  have manifest_nonnull: "manifest \<noteq> JNull" using ui5 by auto
  note unfolded = assms [unfolded manifest_uris_unfold [OF ui5 ui5_nonnull]]
  have step: "aDependedResourceContents pf fs dir manifest =
     (case map_of (own_properties ui5) (str ''resources'') of
         None \<Rightarrow> Inr []
       | Some r \<Rightarrow>
           if truthy (Some r) then
             bindE (Object_keys r) (\<lambda>aResourceKeys.
               concatMapE (read_category pf fs dir r) aResourceKeys [])
           else Inr [])"
    using ui5 ui5_nonnull manifest_nonnull
    by (simp add: aDependedResourceContents_def js_get_Some bindE_def)
  show ?thesis
  proof (cases "map_of (own_properties ui5) (str ''resources'')")
    case None
    then have "uris = []" using unfolded by simp
    then show ?thesis using None step by simp
  next
    case (Some r)
    show ?thesis
    proof (cases "truthy (Some r)")
      case False
      then have "uris = []" using unfolded Some by simp
      then show ?thesis using Some False step by simp
    next
      case True
      then have r: "r \<noteq> JNull" by (rule truthy_nonnull)
      obtain uss where uss: "all_some (map (category_uris r) (map fst (own_properties r))) = Some uss"
        and uris: "uris = concat uss"
        using unfolded Some True by auto
      have keys: "Object_keys r = Inr (map fst (own_properties r))"
        using r by (cases r) (simp_all add: Object_keys_def)
      show ?thesis
        using Some True step keys read_categories_uris [OF r uss, of pf fs dir "[]"]
        by (auto simp: uris bindE_def split: sum.splits)
    qed
  qed
qed

lemma Array_sort_single: "Array_sort [b] = [b]"
  by (simp add: Array_sort_def)

text \<open>Reading files whose bytes are known gives the renderings of the bytes.\<close>

lemma read_files_bytes:
  "map (\<lambda>u. lookup fs (path_segments (f u))) uris = map (\<lambda>b. Inr (File b)) aBytes \<Longrightarrow>
   mapE (\<lambda>u. readFileSync fs (f u)) uris = Inr (map Buffer_toString aBytes)"
proof (induction uris arbitrary: aBytes)
  case Nil
  then show ?case by simp
next
  case (Cons u uris)
  then obtain b rest where "aBytes = b # rest" by (cases aBytes) auto
  then show ?case using Cons by (simp add: readFileSync_def bindE_def)
qed

text \<open>
  Claim C7, as amended. For an application whose manifest (the file, or \<^verbatim>\<open>{'sap.ui5': {}}\<close>
  when there is none or it is empty) has the declared shape, the buffers fed to the content
  hasher are the UTF-8 encodings of the texts read from the files that the \<^verbatim>\<open>uri\<close> entries
  under the resource categories refer to, in the order of the manifest, followed by the
  encoding of the text of the Component-preload file when that text is not empty. When the
  bytes of all these files are well-formed UTF-8 (decoding and encoding give them back), the
  buffers are the contents of the referenced files followed by the content of the
  Component-preload file when it is not empty; an empty preload file adds no buffer. In
  particular, for a module with a Component-preload file of non-empty, well-formed UTF-8
  bytes \<open>B\<close> and no manifest, the token is the hash of the singleton \<open>[B]\<close>, the lower-cased
  digest of \<open>B\<close>.
\<close>

theorem app_hash_input:
  "(readFileSync fs sPreloadPath = Inr oPreloadFileContent \<and>
    oManifestJSON pf fs sResolvedModulePath = Inr manifest \<and>
    manifest_uris manifest = Some uris \<and>
    mapE (\<lambda>u. readFileSync fs (path_resolve pf [sResolvedModulePath, u])) uris = Inr texts
    \<longrightarrow>
    Ui5App_aBufferList pf fs sResolvedModulePath sPreloadPath =
      Inr (map Buffer_from (texts @ (if oPreloadFileContent = [] then [] else [oPreloadFileContent]))) \<and>
    getUi5AppHash pf fs sResolvedModulePath sPreloadPath oOptions =
      Inr (createHash pf
             (Some (map Buffer_from
                (texts @ (if oPreloadFileContent = [] then [] else [oPreloadFileContent]))))
             oOptions)) \<and>
   (lookup fs (path_segments sPreloadPath) = Inr (File B) \<and>
    oManifestJSON pf fs sResolvedModulePath = Inr manifest \<and>
    manifest_uris manifest = Some uris \<and>
    map (\<lambda>u. lookup fs (path_segments (path_resolve pf [sResolvedModulePath, u]))) uris
      = map (\<lambda>b. Inr (File b)) aBytes \<and>
    (\<forall>b\<in>set (B # aBytes). Buffer_from (Buffer_toString b) = b)
    \<longrightarrow>
    Ui5App_aBufferList pf fs sResolvedModulePath sPreloadPath =
      Inr (aBytes @ (if B = [] then [] else [B])) \<and>
    getUi5AppHash pf fs sResolvedModulePath sPreloadPath oOptions =
      Inr (createHash pf (Some (aBytes @ (if B = [] then [] else [B]))) oOptions)) \<and>
   (lookup fs (path_segments sPreloadPath) = Inr (File B) \<and> B \<noteq> [] \<and>
    Buffer_from (Buffer_toString B) = B \<and>
    \<not> existsSync fs (path_resolve pf [sResolvedModulePath, str ''manifest.json''])
    \<longrightarrow>
    getUi5AppHash pf fs sResolvedModulePath sPreloadPath oOptions = Inr (createHash pf (Some [B]) oOptions) \<and>
    createHash pf (Some [B]) oOptions =
      Some (js_toLowerCase (getHashDigest pf B (HASH_TYPE oOptions) (DIGEST_TYPE oOptions)
              (MAX_LENGTH oOptions))))"
proof -
  have general: "Ui5App_aBufferList pf fs sResolvedModulePath sPreloadPath =
      Inr (map Buffer_from (aTexts @ (if sPreload = [] then [] else [sPreload])))"
    if "readFileSync fs sPreloadPath = Inr sPreload"
      and "oManifestJSON pf fs sResolvedModulePath = Inr m"
      and "manifest_uris m = Some us"
      and "mapE (\<lambda>u. readFileSync fs (path_resolve pf [sResolvedModulePath, u])) us = Inr aTexts"
    for sPreload m us aTexts
  proof -
    have "aDependedResourceContents pf fs sResolvedModulePath m = Inr aTexts"
      using that depended_contents_uris [of m us pf fs sResolvedModulePath] by simp
    then show ?thesis using that by (simp add: Ui5App_aBufferList_def bindE_def)
  qed
  have token: "getUi5AppHash pf fs sResolvedModulePath sPreloadPath oOptions =
      Inr (createHash pf (Some aBuffers) oOptions)"
    if "Ui5App_aBufferList pf fs sResolvedModulePath sPreloadPath = Inr aBuffers" for aBuffers
    using that by (simp add: getUi5AppHash_def bindE_def)
  have bytes: "Ui5App_aBufferList pf fs sResolvedModulePath sPreloadPath =
      Inr (aBytes @ (if B = [] then [] else [B]))"
    if h: "lookup fs (path_segments sPreloadPath) = Inr (File B) \<and>
      oManifestJSON pf fs sResolvedModulePath = Inr manifest \<and>
      manifest_uris manifest = Some uris \<and>
      map (\<lambda>u. lookup fs (path_segments (path_resolve pf [sResolvedModulePath, u]))) uris
        = map (\<lambda>b. Inr (File b)) aBytes \<and>
      (\<forall>b\<in>set (B # aBytes). Buffer_from (Buffer_toString b) = b)"
  proof -
    have pre: "readFileSync fs sPreloadPath = Inr (Buffer_toString B)"
      using h by (simp add: readFileSync_def)
    have read: "mapE (\<lambda>u. readFileSync fs (path_resolve pf [sResolvedModulePath, u])) uris
        = Inr (map Buffer_toString aBytes)"
      using h read_files_bytes [of fs "\<lambda>u. path_resolve pf [sResolvedModulePath, u]" uris aBytes]
      by simp
    have empty: "Buffer_toString B = [] \<longleftrightarrow> B = []"
    proof
      assume "Buffer_toString B = []"
      then have "Buffer_from (Buffer_toString B) = []" by (simp add: Buffer_from_def)
      then show "B = []" using h by simp
    next
      assume "B = []"
      then show "Buffer_toString B = []" by (simp add: Buffer_toString_def)
    qed
    have restored: "map Buffer_from (map Buffer_toString aBytes) = aBytes"
      using h by (simp add: map_idI)
    have "Ui5App_aBufferList pf fs sResolvedModulePath sPreloadPath =
      Inr (map Buffer_from (map Buffer_toString aBytes @
             (if Buffer_toString B = [] then [] else [Buffer_toString B])))"
      using general [OF pre _ _ read] h by simp
    then show ?thesis using empty restored h by simp
  qed
  show ?thesis
  proof (intro conjI impI)
    assume h: "readFileSync fs sPreloadPath = Inr oPreloadFileContent \<and>
      oManifestJSON pf fs sResolvedModulePath = Inr manifest \<and>
      manifest_uris manifest = Some uris \<and>
      mapE (\<lambda>u. readFileSync fs (path_resolve pf [sResolvedModulePath, u])) uris = Inr texts"
    then show list: "Ui5App_aBufferList pf fs sResolvedModulePath sPreloadPath =
        Inr (map Buffer_from (texts @ (if oPreloadFileContent = [] then [] else [oPreloadFileContent])))"
      using general by blast
    show "getUi5AppHash pf fs sResolvedModulePath sPreloadPath oOptions =
        Inr (createHash pf
               (Some (map Buffer_from
                  (texts @ (if oPreloadFileContent = [] then [] else [oPreloadFileContent]))))
               oOptions)"
      using list by (rule token)
  next
    assume h: "lookup fs (path_segments sPreloadPath) = Inr (File B) \<and>
      oManifestJSON pf fs sResolvedModulePath = Inr manifest \<and>
      manifest_uris manifest = Some uris \<and>
      map (\<lambda>u. lookup fs (path_segments (path_resolve pf [sResolvedModulePath, u]))) uris
        = map (\<lambda>b. Inr (File b)) aBytes \<and>
      (\<forall>b\<in>set (B # aBytes). Buffer_from (Buffer_toString b) = b)"
    then show list: "Ui5App_aBufferList pf fs sResolvedModulePath sPreloadPath =
        Inr (aBytes @ (if B = [] then [] else [B]))"
      by (rule bytes)
    show "getUi5AppHash pf fs sResolvedModulePath sPreloadPath oOptions =
        Inr (createHash pf (Some (aBytes @ (if B = [] then [] else [B]))) oOptions)"
      using list by (rule token)
  next
    assume h: "lookup fs (path_segments sPreloadPath) = Inr (File B) \<and> B \<noteq> [] \<and>
      Buffer_from (Buffer_toString B) = B \<and>
      \<not> existsSync fs (path_resolve pf [sResolvedModulePath, str ''manifest.json''])"
    have pre: "readFileSync fs sPreloadPath = Inr (Buffer_toString B)"
      using h by (simp add: readFileSync_def)
    have nonempty: "Buffer_toString B \<noteq> []"
    proof
      assume "Buffer_toString B = []"
      then have "Buffer_from (Buffer_toString B) = []" by (simp add: Buffer_from_def)
      then show False using h by simp
    qed
    have manifest: "oManifestJSON pf fs sResolvedModulePath = Inr (JObj [(str ''sap.ui5'', JObj [])])"
      using h by (simp add: oManifestJSON_def bindE_def)
    have uris: "manifest_uris (JObj [(str ''sap.ui5'', JObj [])]) = Some []"
      by (simp add: manifest_uris_def)
    have "Ui5App_aBufferList pf fs sResolvedModulePath sPreloadPath =
        Inr (map Buffer_from ([] @ (if Buffer_toString B = [] then [] else [Buffer_toString B])))"
      using general [OF pre manifest uris] by simp
    then have "Ui5App_aBufferList pf fs sResolvedModulePath sPreloadPath = Inr [B]"
      using nonempty h by simp
    then show "getUi5AppHash pf fs sResolvedModulePath sPreloadPath oOptions
        = Inr (createHash pf (Some [B]) oOptions)"
      by (rule token)
    show "createHash pf (Some [B]) oOptions =
        Some (js_toLowerCase (getHashDigest pf B (HASH_TYPE oOptions) (DIGEST_TYPE oOptions)
                (MAX_LENGTH oOptions)))"
      by (simp add: createHash_def Array_sort_single Buffer_concat_def)
  qed
qed

theorem app_hash_input_witness:
  "readFileSync manifest_fs (str ''/a/Component-preload.js'') = Inr (str ''app'') \<and>
   oManifestJSON example_platform manifest_fs (str ''/a'') = Inr declaring_manifest \<and>
   manifest_uris declaring_manifest = Some [str ''s.css''] \<and>
   mapE (\<lambda>u. readFileSync manifest_fs (path_resolve example_platform [str ''/a'', u])) [str ''s.css'']
     = Inr [str ''css''] \<and>
   lookup manifest_fs (path_segments (str ''/a/Component-preload.js'')) = Inr (File ''app'') \<and>
   map (\<lambda>u. lookup manifest_fs (path_segments (path_resolve example_platform [str ''/a'', u])))
     [str ''s.css''] = map (\<lambda>b. Inr (File b)) [''css''] \<and>
   Buffer_from (Buffer_toString ''app'') = ''app'' \<and>
   Buffer_from (Buffer_toString ''css'') = ''css'' \<and>
   Ui5App_aBufferList example_platform manifest_fs (str ''/a'') (str ''/a/Component-preload.js'')
     = Inr [''css'', ''app''] \<and>
   getUi5AppHash example_platform manifest_fs (str ''/a'') (str ''/a/Component-preload.js'') example_options
     = Inr (Some (str ''happcss'')) \<and>
   lookup both_markers_fs (path_segments (str ''/a/Component-preload.js'')) = Inr (File ''app'') \<and>
   ''app'' \<noteq> [] \<and> Buffer_from (Buffer_toString ''app'') = ''app'' \<and>
   \<not> existsSync both_markers_fs (path_resolve example_platform [str ''/a'', str ''manifest.json'']) \<and>
   getUi5AppHash example_platform both_markers_fs (str ''/a'') (str ''/a/Component-preload.js'') example_options
     = Inr (Some (str ''happ''))"
proof -
  have pre: "readFileSync manifest_fs (str ''/a/Component-preload.js'') = Inr (str ''app'')"
    by code_simp
  have manifest: "oManifestJSON example_platform manifest_fs (str ''/a'') = Inr declaring_manifest"
    by code_simp
  have uris: "manifest_uris declaring_manifest = Some [str ''s.css'']"
    by code_simp
  have texts: "mapE (\<lambda>u. readFileSync manifest_fs (path_resolve example_platform [str ''/a'', u]))
      [str ''s.css''] = Inr [str ''css'']"
    by code_simp
  have preload_bytes:
    "lookup manifest_fs (path_segments (str ''/a/Component-preload.js'')) = Inr (File ''app'')"
    by code_simp
  have sheet_bytes:
    "map (\<lambda>u. lookup manifest_fs (path_segments (path_resolve example_platform [str ''/a'', u])))
       [str ''s.css''] = map (\<lambda>b. Inr (File b)) [''css'']"
    by code_simp
  have round_trip: "Buffer_from (Buffer_toString ''app'') = ''app''"
    "Buffer_from (Buffer_toString ''css'') = ''css''"
    by code_simp+
  have hash: "createHash example_platform (Some [''css'', ''app'']) example_options
      = Some (str ''happcss'')"
    by code_simp
  have preload_file:
    "lookup both_markers_fs (path_segments (str ''/a/Component-preload.js'')) = Inr (File ''app'')"
    by code_simp
  have none: "\<not> existsSync both_markers_fs (path_resolve example_platform [str ''/a'', str ''manifest.json''])"
    by code_simp
  have single: "createHash example_platform (Some [''app'']) example_options = Some (str ''happ'')"
    by code_simp
  note with_manifest =
    app_hash_input [of manifest_fs "str ''/a/Component-preload.js''" "str ''app''"
      example_platform "str ''/a''" declaring_manifest "[str ''s.css'']" "[str ''css'']" example_options
      "''app''" "[''css'']"]
  note without_manifest =
    app_hash_input [of both_markers_fs "str ''/a/Component-preload.js''" _ example_platform "str ''/a''"
      _ _ _ example_options "''app''"]
  have list: "Ui5App_aBufferList example_platform manifest_fs (str ''/a'') (str ''/a/Component-preload.js'')
     = Inr [''css'', ''app'']"
    using with_manifest preload_bytes manifest uris sheet_bytes round_trip by simp
  have token: "getUi5AppHash example_platform manifest_fs (str ''/a'') (str ''/a/Component-preload.js'')
      example_options = Inr (Some (str ''happcss''))"
    using with_manifest preload_bytes manifest uris sheet_bytes round_trip hash by simp
  have alone: "getUi5AppHash example_platform both_markers_fs (str ''/a'') (str ''/a/Component-preload.js'')
      example_options = Inr (Some (str ''happ''))"
    using without_manifest preload_file round_trip none single by simp
  show ?thesis
    using pre manifest uris texts preload_bytes sheet_bytes round_trip list token preload_file none alone
    by simp
qed

text \<open>
  Claim C7 as it is written fails for an application without a manifest whose
  Component-preload file is empty: no buffer is fed to the hasher and there is no token,
  where the hash of the singleton of the empty buffer is a token. It fails as well where
  the bytes of the file are no UTF-8: for the one byte FF the hasher is fed the bytes
  EF BF BD of U+FFFD, and the token is not that of the singleton of the file content.
\<close>

theorem app_hash_input_counterexample:
  "isUi5App example_platform empty_preload_fs (str ''/a'') \<and>
   lookup empty_preload_fs (path_segments (preload_path example_platform (str ''/a''))) = Inr (File []) \<and>
   \<not> existsSync empty_preload_fs (path_resolve example_platform [str ''/a'', str ''manifest.json'']) \<and>
   Ui5App_aBufferList example_platform empty_preload_fs (str ''/a'')
     (preload_path example_platform (str ''/a'')) = Inr [] \<and>
   getUi5AppHash example_platform empty_preload_fs (str ''/a'')
     (preload_path example_platform (str ''/a'')) example_options = Inr None \<and>
   createHash example_platform (Some [[]]) example_options = Some (str ''h'') \<and>
   isUi5App example_platform ill_formed_preload_fs (str ''/a'') \<and>
   lookup ill_formed_preload_fs (path_segments (preload_path example_platform (str ''/a'')))
     = Inr (File [CHR 0xFF]) \<and>
   \<not> existsSync ill_formed_preload_fs (path_resolve example_platform [str ''/a'', str ''manifest.json'']) \<and>
   Ui5App_aBufferList example_platform ill_formed_preload_fs (str ''/a'')
     (preload_path example_platform (str ''/a'')) = Inr [[CHR 0xEF, CHR 0xBF, CHR 0xBD]] \<and>
   getUi5AppHash example_platform ill_formed_preload_fs (str ''/a'')
     (preload_path example_platform (str ''/a'')) example_options = Inr (Some [104, 239, 191, 189]) \<and>
   createHash example_platform (Some [[CHR 0xFF]]) example_options = Some [104, 255]"
  by code_simp

subsection \<open>The file tree reader\<close>

lemma path_segments_child:
  assumes "sFileName \<noteq> []" and "47 \<notin> set sFileName"
  shows "path_segments (sDir @ [47] @ sFileName) = path_segments sDir @ [sFileName]"
  using assms by (simp add: path_segments_def js_split_append js_split_plain)

lemma lookup_append:
  "lookup fs (xs @ ys) = (case lookup fs xs of Inl e \<Rightarrow> Inl e | Inr n \<Rightarrow> lookup n ys)"
proof (induction fs xs rule: lookup.induct)
  case (1 n)
  then show ?case by simp
next
  case (2 b c cs)
  then show ?case by simp
next
  case (3 entries c cs)
  then show ?case by (simp split: option.splits)
qed

lemma map_of_distinct_entry:
  "distinct (map fst entries) \<Longrightarrow> (k, n) \<in> set entries \<Longrightarrow> map_of entries k = Some n"
  by simp

text \<open>The model of \<^verbatim>\<open>_readAllFiles\<close> follows the tree where the source follows paths. In a
  directory whose names are distinct the two agree: the calls \<^verbatim>\<open>readdirSync(sDir)\<close>,
  \<^verbatim>\<open>statSync(`${sDir}/${sFileName}`)\<close>, \<^verbatim>\<open>readFileSync(`${sDir}/${sFileName}`)\<close> and
  \<^verbatim>\<open>_readAllFiles(`${sDir}/${sFileName}`)\<close> meet the entry the loop is at.\<close>

lemma entry_by_path:
  assumes dir: "lookup fs (path_segments sDir) = Inr (Dir entries)"
    and names: "distinct (map fst entries)"
    and entry: "(sFileName, n) \<in> set entries"
    and name: "sFileName \<noteq> []" "47 \<notin> set sFileName"
  shows "readdirSync fs sDir = Inr (map fst entries)"
    and "lookup fs (path_segments (sDir @ [47] @ sFileName)) = Inr n"
    and "isDirectory fs (sDir @ [47] @ sFileName) = Inr (case n of File b \<Rightarrow> False | Dir sub \<Rightarrow> True)"
    and "readFileSync fs (sDir @ [47] @ sFileName) =
           (case n of File b \<Rightarrow> Inr (Buffer_toString b) | Dir sub \<Rightarrow> Inl (FsError EISDIR))"
    and "readAllFiles fs (sDir @ [47] @ sFileName) aWhitelist =
           (case n of File b \<Rightarrow> Inl (FsError ENOTDIR) | Dir sub \<Rightarrow> Inr (read_entries aWhitelist sub))"
proof -
  show "readdirSync fs sDir = Inr (map fst entries)"
    using dir by (simp add: readdirSync_def)
  show child: "lookup fs (path_segments (sDir @ [47] @ sFileName)) = Inr n"
    using dir map_of_distinct_entry [OF names entry]
    by (simp only: path_segments_child [OF name] lookup_append) simp
  show "isDirectory fs (sDir @ [47] @ sFileName) = Inr (case n of File b \<Rightarrow> False | Dir sub \<Rightarrow> True)"
    using child by (simp add: isDirectory_def split: node.splits)
  show "readFileSync fs (sDir @ [47] @ sFileName) =
           (case n of File b \<Rightarrow> Inr (Buffer_toString b) | Dir sub \<Rightarrow> Inl (FsError EISDIR))"
    using child by (simp add: readFileSync_def split: node.splits)
  show "readAllFiles fs (sDir @ [47] @ sFileName) aWhitelist =
           (case n of File b \<Rightarrow> Inl (FsError ENOTDIR) | Dir sub \<Rightarrow> Inr (read_entries aWhitelist sub))"
    using child by (simp add: readAllFiles_def split: node.splits)
qed

text \<open>
  Claim C6 fails on the code: the call that reads a subdirectory passes no allow-list, so
  that below the root every file is read. With the allow-list \<^verbatim>\<open>['a.css']\<close> the reader
  returns, beside \<^verbatim>\<open>/d/a.css\<close>, the content of \<^verbatim>\<open>/d/sub/c.txt\<close>.
\<close>

theorem allow_list_below_root:
  "readAllFiles nested_fs (str ''/d'') [str ''a.css''] = Inr [str ''A'', str ''C'']"
  by code_simp

subsection \<open>The rewriters\<close>

lemma GetSubstitution_plain:
  "36 \<notin> set template \<Longrightarrow> GetSubstitution matched preceding following captures template = template"
  by (induction matched preceding following captures template rule: GetSubstitution.induct) auto

lemma js_split_single: "js_split sep s = [w] \<Longrightarrow> s = w"
proof (induction s arbitrary: w)
  case Nil
  then show ?case by simp
next
  case (Cons c cs)
  then show ?case
    using js_split_nonempty [of sep cs]
    by (auto split: if_splits list.splits)
qed

text \<open>The last segment of a path is the end of the path.\<close>

lemma last_js_split_suffix: "\<exists>pre. s = pre @ last (js_split sep s)"
proof (induction s)
  case Nil
  then show ?case by simp
next
  case (Cons c cs)
  then obtain pre where pre: "cs = pre @ last (js_split sep cs)" by blast
  show ?case
  proof (cases "c = sep")
    case True
    then have "last (js_split sep (c # cs)) = last (js_split sep cs)"
      using js_split_nonempty [of sep cs] by simp
    then show ?thesis using pre by (metis append_Cons)
  next
    case False
    obtain w ws where split: "js_split sep cs = w # ws"
      using js_split_nonempty [of sep cs] by (cases "js_split sep cs") auto
    show ?thesis
    proof (cases ws)
      case Nil
      then have "cs = w" using split js_split_single by blast
      then show ?thesis using False split Nil by (intro exI [of _ "[]"]) simp
    next
      case (Cons v vs)
      then have "last (js_split sep (c # cs)) = last (js_split sep cs)"
        using False split by simp
      then show ?thesis using pre by (metis append_Cons)
    qed
  qed
qed

lemma unit_matches_self: "unit_matches c c"
  by (simp add: unit_matches_def line_terminator_def)

lemma matches_at_self: "matches_at pat pat"
  by (simp add: matches_at_def list_all2_same unit_matches_self)

lemma within_model_plain: "within_model pat \<Longrightarrow> 36 \<notin> set pat"
  by (auto simp: within_model_def filter_empty_conv syntax_character_def)

lemma replace_at_end_suffix:
  assumes "within_model pat" and "36 \<notin> set template"
  shows "replace_at_end (pre @ pat) pat template = Inr (pre @ template)"
  using assms by (simp add: replace_at_end_def matches_at_self GetSubstitution_plain)

lemma renameSync_same:
  "existsSync fs p \<Longrightarrow> renameSync fs p p = Inr fs"
  by (auto simp: renameSync_def existsSync_def Let_def split: sum.splits)

text \<open>What the resource-root rewriter does for a module without a token, whatever the
  module: the directory keeps its name, and the declaration map records the module path
  with \<^verbatim>\<open>-null\<close> at its end.\<close>

lemma null_token_path:
  assumes declared: "map_of (own_properties oResouceRoots) sModuleName = Some (JStr sModulePath)"
    and nonnull: "oResouceRoots \<noteq> JNull"
    and null: "module_hash pf fs
                 (path_resolve pf [cwd oHTMLFile, path_dirname (path oHTMLFile), sModulePath])
                 oOptions = Inr Null"
    and model: "within_model (last (js_split 47 sModulePath))"
    and there: "existsSync fs (path_resolve pf [cwd oHTMLFile, path_dirname (path oHTMLFile), sModulePath])"
  shows "resource_root_entry pf oHTMLFile oOptions oResouceRoots fs oNewResouceRoots sModuleName
         = Inr (fs, object_set oNewResouceRoots sModuleName (sModulePath @ str ''-null''))"
proof -
  obtain pre where pre: "sModulePath = pre @ last (js_split 47 sModulePath)"
    using last_js_split_suffix by blast
  have plain: "36 \<notin> set (last (js_split 47 sModulePath) @ str ''-'' @ hash_text Null)"
    using within_model_plain [OF model] by (simp add: hash_text_def str_def)
  have "replace_at_end (pre @ last (js_split 47 sModulePath)) (last (js_split 47 sModulePath))
          (last (js_split 47 sModulePath) @ str ''-'' @ hash_text Null)
        = Inr (pre @ last (js_split 47 sModulePath) @ str ''-'' @ hash_text Null)"
    using replace_at_end_suffix [OF model plain] .
  then have path: "replace_at_end sModulePath (last (js_split 47 sModulePath))
          (last (js_split 47 sModulePath) @ str ''-'' @ hash_text Null)
        = Inr (sModulePath @ str ''-null'')"
    using pre by (simp add: hash_text_def str_def)
  show ?thesis
    using declared nonnull null path renameSync_same [OF there]
    by (simp add: resource_root_entry_def js_get_Some bindE_def Let_def hash_truthy_def)
qed

text \<open>
  Claim C1 fails on the code: for the module \<^verbatim>\<open>./a\<close>, an empty directory, no token is
  produced and the directory keeps its name, but the new declaration map records the path
  \<^verbatim>\<open>./a-null\<close>, and so does the document that is returned.
\<close>

theorem null_token_entry:
  "module_hash example_platform empty_module_fs (str ''/a'') example_options = Inr Null \<and>
   resource_root_entry example_platform example_file example_options module_declaration
     empty_module_fs [] (str ''m'')
     = Inr (empty_module_fs, [(str ''m'', str ''./a-null'')]) \<and>
   ui5Bust example_platform example_file None empty_module_fs
     = (Inr (example_file\<lparr>contents :=
          ''<script data-sap-ui-resourceroots='{\"m\":\"./a-null\"}' \<newline> data-sap-ui-theme-roots='{}' >''\<rparr>),
        empty_module_fs)"
  by code_simp

text \<open>
  Claim C5 fails on the code: for the theme root \<^verbatim>\<open>./t/UI5\<close> whose directory does not
  exist no token is generated, and then either the rename of the missing directory \<^verbatim>\<open>/t\<close>
  throws, or, where \<^verbatim>\<open>/t\<close> exists without \<^verbatim>\<open>UI5\<close> in it, \<^verbatim>\<open>/t\<close> is renamed to \<^verbatim>\<open>/t-null\<close> and
  the path \<^verbatim>\<open>./t-null/UI5\<close> is recorded.
\<close>

theorem missing_theme_root:
  "\<not> existsSync (Dir []) (str ''/t/UI5'') \<and>
   theme_root_entry example_platform theme_file example_options theme_declaration
     (Dir []) [] (str ''t'') = Inl (FsError ENOENT) \<and>
   ui5Bust example_platform theme_file None (Dir []) = (Inl (FsError ENOENT), Dir []) \<and>
   \<not> existsSync (Dir [(str ''t'', Dir [])]) (str ''/t/UI5'') \<and>
   theme_root_entry example_platform theme_file example_options theme_declaration
     (Dir [(str ''t'', Dir [])]) [] (str ''t'')
     = Inr (Dir [(str ''t-null'', Dir [])], [(str ''t'', str ''./t-null/UI5'')])"
  by code_simp

subsection \<open>Malformed declarations\<close>




text \<open>The statement above is about declarations that the document holds. The program does
  not check for the markers: where one is missing, the text that the index arithmetic
  selects in its place is parsed. The document \<^verbatim>\<open>{}\<close> has neither marker and is accepted.\<close>

lemma missing_markers_accepted:
  "js_indexOf (Buffer_toString ''{}'') sResourceRootMarker 0 = - 1 \<and>
   js_indexOf (Buffer_toString ''{}'') sThemeRootMarker 0 = - 1 \<and>
   ui5Bust example_platform \<lparr>cwd = str ''/'', path = str ''/index.html'', contents = ''{}''\<rparr> None assets_fs
     = (Inr \<lparr>cwd = str ''/'', path = str ''/index.html'', contents = ''{}''\<rparr>, assets_fs)"
  by code_simp

subsection \<open>The document outside the declarations\<close>

lemma replace_all_skip:
  "no_start opening xs rest \<Longrightarrow>
   replace_all opening template preceding (xs @ rest) =
     xs @ replace_all opening template (preceding @ xs) rest"
proof (induction xs arbitrary: preceding)
  case Nil
  then show ?case by simp
next
  case (Cons x xs)
  then have "replace_all opening template preceding ((x # xs) @ rest) =
             x # replace_all opening template (preceding @ [x]) (xs @ rest)"
    by (simp add: replace_all.simps)
  then show ?case using Cons by simp
qed

lemma last_quote_closing:
  assumes "39 \<notin> set literal" and "filter line_terminator literal = []"
    and "39 \<notin> set (takeWhile (\<lambda>c. \<not> line_terminator c) post)"
  shows "last_quote (literal @ 39 # post) = Some (length literal)"
proof -
  have all: "\<forall>c\<in>set literal. \<not> line_terminator c"
    using assms(2) by (simp add: filter_empty_conv)
  have line: "takeWhile (\<lambda>c. \<not> line_terminator c) (literal @ 39 # post) =
              literal @ 39 # takeWhile (\<lambda>c. \<not> line_terminator c) post"
    using all by (simp add: takeWhile_append2 line_terminator_def)
  have "dropWhile (\<lambda>c. c \<noteq> 39) (rev (takeWhile (\<lambda>c. \<not> line_terminator c) post) @ 39 # rev literal)
        = dropWhile (\<lambda>c. c \<noteq> 39) (39 # rev literal)"
    using assms(3) by (intro dropWhile_append2) auto
  then have "dropWhile (\<lambda>c. c \<noteq> 39) (rev (literal @ 39 # takeWhile (\<lambda>c. \<not> line_terminator c) post))
        = 39 # rev literal"
    by simp
  then show ?thesis by (simp add: last_quote_def line)
qed

text \<open>One \<^verbatim>\<open>replace\<close> call on a document that holds the declaration once puts the template
  in the place of the declaration and keeps the text before and after it.\<close>

lemma replace_all_declared_once:
  assumes "declared_once opening pre literal post" and "36 \<notin> set template"
  shows "replace_all opening template [] (pre @ opening @ literal @ 39 # post) = pre @ template @ post"
proof -
  have skip: "no_start opening pre (opening @ literal @ 39 # post)"
    and quote: "last_quote (literal @ 39 # post) = Some (length literal)"
    and tail: "no_start opening post []"
    using assms(1) last_quote_closing by (auto simp: declared_once_def)
  obtain c cs where shape: "opening @ literal @ 39 # post = c # cs"
    by (cases "opening @ literal @ 39 # post") auto
  have "replace_all opening template pre (c # cs) =
        GetSubstitution (take (length opening + length literal + 1) (c # cs)) pre
          (drop (length opening + length literal + 1) (c # cs))
          [take (length literal) (drop (length opening) (c # cs))] template
        @ replace_all opening template (pre @ take (length opening + length literal + 1) (c # cs))
            (drop (length opening + length literal + 1) (c # cs))"
    using quote by (subst replace_all.simps) (simp add: shape [symmetric])
  also have "drop (length opening + length literal + 1) (c # cs) = post"
    by (simp add: shape [symmetric])
  finally have here: "replace_all opening template pre (opening @ literal @ 39 # post) =
      template @ replace_all opening template
         (pre @ take (length opening + length literal + 1) (c # cs)) post"
    using assms(2) by (simp add: shape GetSubstitution_plain)
  have rest: "replace_all opening template preceding post = post" for preceding
    using replace_all_skip [OF tail, of template preceding] by (simp add: replace_all.simps)
  show ?thesis
    using replace_all_skip [OF skip, of template "[]"] here rest by simp
qed

lemma markers_plain: "36 \<notin> set sResourceRootMarker" "36 \<notin> set sThemeRootMarker"
  by (simp_all add: sResourceRootMarker_def sThemeRootMarker_def str_def)

text \<open>
  Where the document text holds the resource-root declaration and, on a later line, the
  theme-root declaration, each once and on one line, each with its closing quote as the
  last single quote of its line, and the new JSON texts have no dollar sign, the two
  \<^verbatim>\<open>replace\<close> calls put the new JSON texts in the place of the two quoted literals, and every
  code unit of the document outside the two literals is as in the input.
\<close>

theorem declarations_frame:
  assumes "declared_once (sResourceRootMarker @ [39]) pre literal1
             (mid @ sThemeRootMarker @ [39] @ literal2 @ 39 # post)"
    and "declared_once (sThemeRootMarker @ [39])
             (pre @ sResourceRootMarker @ [39] @ json1 @ 39 # mid) literal2 post"
    and "36 \<notin> set json1" and "36 \<notin> set json2"
  shows "update_declarations
           (pre @ sResourceRootMarker @ [39] @ literal1 @ 39 # mid
              @ sThemeRootMarker @ [39] @ literal2 @ 39 # post) json1 json2
         = pre @ sResourceRootMarker @ [39] @ json1 @ 39 # mid
              @ sThemeRootMarker @ [39] @ json2 @ 39 # post"
proof -
  have first: "replace_all (sResourceRootMarker @ [39]) (sResourceRootMarker @ [39] @ json1 @ [39]) []
      (pre @ (sResourceRootMarker @ [39]) @ literal1 @ 39 # (mid @ sThemeRootMarker @ [39] @ literal2 @ 39 # post))
      = pre @ (sResourceRootMarker @ [39] @ json1 @ [39]) @ (mid @ sThemeRootMarker @ [39] @ literal2 @ 39 # post)"
    using assms(1,3) markers_plain by (intro replace_all_declared_once) auto
  have second: "replace_all (sThemeRootMarker @ [39]) (sThemeRootMarker @ [39] @ json2 @ [39]) []
      ((pre @ sResourceRootMarker @ [39] @ json1 @ 39 # mid) @ (sThemeRootMarker @ [39]) @ literal2 @ 39 # post)
      = (pre @ sResourceRootMarker @ [39] @ json1 @ 39 # mid) @ (sThemeRootMarker @ [39] @ json2 @ [39]) @ post"
    using assms(2,4) markers_plain by (intro replace_all_declared_once) auto
  show ?thesis
    using first second by (simp add: update_declarations_def)
qed

theorem declarations_frame_witness:
  "declared_once (sResourceRootMarker @ [39]) (str ''<script '') (str ''{\"m\":\"./a\"}'')
     (str '' \<newline> '' @ sThemeRootMarker @ [39] @ str ''{}'' @ 39 # str '' >'') \<and>
   declared_once (sThemeRootMarker @ [39])
     (str ''<script '' @ sResourceRootMarker @ [39] @ str ''{\"m\":\"./a-hx\"}'' @ 39 # str '' \<newline> '')
     (str ''{}'') (str '' >'') \<and>
   36 \<notin> set (str ''{\"m\":\"./a-hx\"}'') \<and> 36 \<notin> set (str ''{}'') \<and>
   update_declarations
     (str ''<script data-sap-ui-resourceroots='{\"m\":\"./a\"}' \<newline> data-sap-ui-theme-roots='{}' >'')
     (str ''{\"m\":\"./a-hx\"}'') (str ''{}'')
   = str ''<script data-sap-ui-resourceroots='{\"m\":\"./a-hx\"}' \<newline> data-sap-ui-theme-roots='{}' >''"
proof -
  have one: "declared_once (sResourceRootMarker @ [39]) (str ''<script '') (str ''{\"m\":\"./a\"}'')
     (str '' \<newline> '' @ sThemeRootMarker @ [39] @ str ''{}'' @ 39 # str '' >'')"
    by code_simp
  have two: "declared_once (sThemeRootMarker @ [39])
     (str ''<script '' @ sResourceRootMarker @ [39] @ str ''{\"m\":\"./a-hx\"}'' @ 39 # str '' \<newline> '')
     (str ''{}'') (str '' >'')"
    by code_simp
  have plain: "36 \<notin> set (str ''{\"m\":\"./a-hx\"}'')" "36 \<notin> set (str ''{}'')"
    by code_simp+
  have doc_in: "str ''<script '' @ sResourceRootMarker @ [39] @ str ''{\"m\":\"./a\"}'' @ 39 # str '' \<newline> ''
      @ sThemeRootMarker @ [39] @ str ''{}'' @ 39 # str '' >''
    = str ''<script data-sap-ui-resourceroots='{\"m\":\"./a\"}' \<newline> data-sap-ui-theme-roots='{}' >''"
    by code_simp
  have doc_out: "str ''<script '' @ sResourceRootMarker @ [39] @ str ''{\"m\":\"./a-hx\"}'' @ 39 # str '' \<newline> ''
      @ sThemeRootMarker @ [39] @ str ''{}'' @ 39 # str '' >''
    = str ''<script data-sap-ui-resourceroots='{\"m\":\"./a-hx\"}' \<newline> data-sap-ui-theme-roots='{}' >''"
    by code_simp
  show ?thesis
    using declarations_frame [OF one two plain] one two plain unfolding doc_in doc_out by simp
qed

text \<open>
  Claim C4 fails on the code where a single quote follows a declaration on its line. The
  extraction ends the literal at the first single quote after the marker; the pattern of the
  \<^verbatim>\<open>replace\<close> call is greedy and runs to the last single quote of the line. In this document
  the \<^verbatim>\<open>id\<close> attribute and the whole theme-root declaration lie outside the resource-root
  literal and are gone from the output.
\<close>

theorem greedy_declaration_match:
  "ui5Bust example_platform same_line_file None (Dir [])
   = (Inr (same_line_file\<lparr>contents := ''<script data-sap-ui-resourceroots='{}' >''\<rparr>), Dir []) \<and>
   contents same_line_file
   = ''<script data-sap-ui-resourceroots='{}' id='x' data-sap-ui-theme-roots='{}' >''"
  by code_simp

text \<open>A declaration that runs over several lines, as in the README, is extracted and
  processed, but the pattern of the \<^verbatim>\<open>replace\<close> call does not match it (the dot stops at a line
  terminator): the directory is renamed and the document is returned as it came.\<close>

lemma multi_line_declaration:
  "ui5Bust example_platform multi_line_file None assets_fs
   = (Inr multi_line_file, Dir [(str ''a-hx'', Dir [(str ''x'', File ''x'')])])"
  by code_simp

end
